theory Spec2Isabelle
  imports Main
begin

unbundle bit_operations_syntax

text \<open>
  Two parts of flashlight's \<open>main\<close> package are embedded here, each followed from its
  source line by line.  The certificate management (\<open>initCerts\<close>, \<open>certificateFor\<close>) is
  sequential: it is a function from the state of the process and its files to an error
  and a new state.  The interception tunnel (\<open>handleClientMITM\<close>, \<open>respondBadGateway\<close>,
  \<open>pipe\<close>) starts goroutines: each goroutine is a program point, one statement is one
  step, and a run is the program's reaction to a schedule, which picks at every step the
  goroutine that runs and what the network hands to it.  The definitions come first, then
  the inputs used as examples, then the properties.
\<close>

section \<open>Certificate management of flashlight (\<open>initCerts\<close>, \<open>certificateFor\<close>)\<close>

subsection \<open>Time\<close>

text \<open>
  A Go \<open>time.Time\<close> is modelled as an instant in nanoseconds since the Unix epoch.
  \<open>Time.Before\<close> is the strict order and \<open>Time.Nanosecond\<close> the offset within the
  second, in the range 0 .. 999999999.  \<open>Time.AddDate\<close> is calendar arithmetic of the Go
  standard library; it is a parameter of the model (field \<open>AddDate\<close> of the environment).
\<close>

type_synonym time = int

definition Before :: "time \<Rightarrow> time \<Rightarrow> bool" where
  "Before t u = (t < u)"

definition Nanosecond :: "time \<Rightarrow> int" where
  "Nanosecond t = t mod 1000000000"

subsection \<open>Errors\<close>

text \<open>
  A Go \<open>error\<close> value: the sentinel \<open>io.EOF\<close>, or any other error with its text.
  \<open>Panic\<close> stands for a run-time panic (a method called through a nil pointer).
\<close>

datatype error = EOF | Error string | Panic string

fun Error_text :: "error \<Rightarrow> string" where
  "Error_text EOF = ''EOF''"
| "Error_text (Error s) = s"
| "Error_text (Panic s) = s"

subsection \<open>Certificates\<close>

text \<open>The constants of \<open>crypto/x509\<close> that the program uses; \<open>KeyUsage\<close> is a bit set.\<close>

definition KeyUsageDigitalSignature :: int where
  "KeyUsageDigitalSignature = 1"

definition KeyUsageKeyEncipherment :: int where
  "KeyUsageKeyEncipherment = 4"

definition KeyUsageCertSign :: int where
  "KeyUsageCertSign = 32"

datatype ExtKeyUsage = ExtKeyUsageAny | ExtKeyUsageServerAuth | ExtKeyUsageClientAuth

record pkix_Name =
  Organization :: "string list"
  CommonName :: string

text \<open>The fields of \<open>x509.Certificate\<close> that \<open>certificateFor\<close> fills in; a field the
  template does not mention has Go's zero value (\<open>[]\<close>, \<open>False\<close>).\<close>

record x509_Certificate =
  SerialNumber :: int
  Subject :: pkix_Name
  NotBefore :: time
  NotAfter :: time
  BasicConstraintsValid :: bool
  KeyUsage :: int
  ExtKeyUsage :: "ExtKeyUsage list"
  IsCA :: bool

text \<open>
  \<open>keyman.PrivateKey\<close> is opaque (a key is named by a number).  A \<open>keyman.Certificate\<close>
  carries the X.509 data of its template, the certificate of its issuer (\<open>None\<close> for a
  self-signed certificate) and the key it was signed with.
\<close>

type_synonym PrivateKey = nat

datatype Certificate =
  Certificate (X509: x509_Certificate) (issuedBy: "Certificate option") (signedWith: PrivateKey)

subsection \<open>Flags, package variables, environment and state\<close>

text \<open>
  The package-level variables that are fixed once the process has started: the flags
  \<open>-server\<close> and \<open>-configDir\<close>, and the three instants computed from \<open>time.Now()\<close> at
  initialisation (lines 51-54).
\<close>

record vars =
  upstreamHost :: string
  configDir :: string
  PathSeparator :: char
  ONE_MONTH_FROM_TODAY :: time
  ONE_YEAR_FROM_TODAY :: time
  TEN_YEARS_FROM_TODAY :: time

definition isDownstream :: "vars \<Rightarrow> bool" where
  "isDownstream v = (upstreamHost v \<noteq> '''')"

definition isUpstream :: "vars \<Rightarrow> bool" where
  "isUpstream v = (\<not> isDownstream v)"

text \<open>\<open>inConfigDir\<close> (lines 93-107); creating the directory is not modelled.\<close>

definition inConfigDir :: "vars \<Rightarrow> string \<Rightarrow> string" where
  "inConfigDir v filename =
     (if configDir v = '''' then filename
      else configDir v @ [PathSeparator v] @ filename)"

definition PK_FILE :: "vars \<Rightarrow> string" where
  "PK_FILE v = inConfigDir v ''proxypk.pem''"

definition CA_CERT_FILE :: "vars \<Rightarrow> string" where
  "CA_CERT_FILE v = inConfigDir v ''cacert.pem''"

definition SERVER_CERT_FILE :: "vars \<Rightarrow> string" where
  "SERVER_CERT_FILE v = inConfigDir v ''servercert.pem''"

text \<open>
  What lies outside the program and decides the outcome of its library calls: the wall
  clock (the n-th call of \<open>time.Now()\<close> returns \<open>clock n\<close>), \<open>AddDate\<close>, and whether key
  generation, signing, writing a file and installing a trusted root fail.
\<close>

record env =
  clock :: "nat \<Rightarrow> time"
  AddDate :: "time \<Rightarrow> int \<Rightarrow> int \<Rightarrow> int \<Rightarrow> time"
  GeneratePK_result :: "error + PrivateKey"
  Certificate_error :: "x509_Certificate \<Rightarrow> error option"
  WriteToFile_error :: "string \<Rightarrow> error option"
  AddAsTrustedRoot_error :: "error option"

datatype disk_file = PKFile PrivateKey | CertFile Certificate | Unreadable

text \<open>
  The mutable state: the files on disk, the user's trust store, the log, the number of
  clock readings taken so far, and the package variables \<open>pk\<close>, \<open>caCert\<close> and
  \<open>serverCert\<close> (\<open>None\<close> is the nil pointer).
\<close>

record world =
  files :: "string \<rightharpoonup> disk_file"
  trusted :: "Certificate list"
  log :: "string list"
  ticks :: nat
  pk :: "PrivateKey option"
  caCert :: "Certificate option"
  serverCert :: "Certificate option"

subsection \<open>Library calls\<close>

definition time_Now :: "env \<Rightarrow> world \<Rightarrow> time \<times> world" where
  "time_Now e w = (clock e (ticks w), w\<lparr>ticks := Suc (ticks w)\<rparr>)"

definition log_Print :: "string \<Rightarrow> world \<Rightarrow> world" where
  "log_Print line w = w\<lparr>log := log w @ [line]\<rparr>"

definition LoadPKFromFile :: "world \<Rightarrow> string \<Rightarrow> error + PrivateKey" where
  "LoadPKFromFile w path =
     (case files w path of
        Some (PKFile k) \<Rightarrow> Inr k
      | _ \<Rightarrow> Inl (Error ''unable to load private key''))"

definition LoadCertificateFromFile :: "world \<Rightarrow> string \<Rightarrow> error + Certificate" where
  "LoadCertificateFromFile w path =
     (case files w path of
        Some (CertFile c) \<Rightarrow> Inr c
      | _ \<Rightarrow> Inl (Error ''unable to load certificate''))"

definition WriteToFile :: "env \<Rightarrow> string \<Rightarrow> disk_file \<Rightarrow> world \<Rightarrow> error option \<times> world" where
  "WriteToFile e path content w =
     (case WriteToFile_error e path of
        Some err \<Rightarrow> (Some err, w)
      | None \<Rightarrow> (None, w\<lparr>files := (files w)(path \<mapsto> content)\<rparr>))"

definition AddAsTrustedRoot :: "env \<Rightarrow> Certificate \<Rightarrow> world \<Rightarrow> error option \<times> world" where
  "AddAsTrustedRoot e c w =
     (case AddAsTrustedRoot_error e of
        Some err \<Rightarrow> (Some err, w)
      | None \<Rightarrow> (None, w\<lparr>trusted := trusted w @ [c]\<rparr>))"

text \<open>\<open>pk.Certificate(template, issuer)\<close>: signs the template with the key \<open>pk\<close>.\<close>

definition PrivateKey_Certificate ::
  "env \<Rightarrow> PrivateKey option \<Rightarrow> x509_Certificate \<Rightarrow> Certificate option \<Rightarrow> error + Certificate"
where
  "PrivateKey_Certificate e key template issuer =
     (case key of
        None \<Rightarrow> Inl (Panic ''nil private key'')
      | Some k \<Rightarrow>
          (case Certificate_error e template of
             Some err \<Rightarrow> Inl err
           | None \<Rightarrow> Inr (Certificate template issuer k)))"

subsection \<open>\<open>certificateFor\<close> (lines 302-328)\<close>

definition certificateFor ::
  "env \<Rightarrow> string \<Rightarrow> time \<Rightarrow> bool \<Rightarrow> Certificate option \<Rightarrow> world \<Rightarrow> (error + Certificate) \<times> world"
where
  "certificateFor e name validUntil isCA issuer w =
     (let (t1, w1) = time_Now e w;
          (t2, w2) = time_Now e w1;
          template = \<lparr>SerialNumber = Nanosecond t1,
                      Subject = \<lparr>Organization = [''Lantern''], CommonName = name\<rparr>,
                      NotBefore = AddDate e t2 0 (- 1) 0,
                      NotAfter = validUntil,
                      BasicConstraintsValid = True,
                      KeyUsage = KeyUsageKeyEncipherment OR KeyUsageDigitalSignature,
                      ExtKeyUsage = [],
                      IsCA = False\<rparr>;
          template1 =
            (if issuer = None then
               (let template2 =
                      (if isCA then template\<lparr>KeyUsage := KeyUsage template OR KeyUsageCertSign\<rparr>
                       else template)
                in template2\<lparr>ExtKeyUsage := [ExtKeyUsageServerAuth], IsCA := True\<rparr>)
             else template)
      in (PrivateKey_Certificate e (pk w2) template1 issuer, w2))"

subsection \<open>\<open>initCerts\<close> (lines 256-297)\<close>

text \<open>Lines 257-265: the private key.\<close>

definition initCerts_pk :: "vars \<Rightarrow> env \<Rightarrow> world \<Rightarrow> error option \<times> world" where
  "initCerts_pk v e w =
     (case LoadPKFromFile w (PK_FILE v) of
        Inr k \<Rightarrow> (None, w\<lparr>pk := Some k\<rparr>)
      | Inl _ \<Rightarrow>
          (let w1 = log_Print (''Creating new PK at: '' @ PK_FILE v) (w\<lparr>pk := None\<rparr>)
           in case GeneratePK_result e of
                Inl err \<Rightarrow> (Some err, w1)
              | Inr k \<Rightarrow> WriteToFile e (PK_FILE v) (PKFile k) (w1\<lparr>pk := Some k\<rparr>)))"

text \<open>Lines 267-282: the CA certificate.\<close>

definition initCerts_ca :: "vars \<Rightarrow> env \<Rightarrow> world \<Rightarrow> error option \<times> world" where
  "initCerts_ca v e w =
     (let r = LoadCertificateFromFile w (CA_CERT_FILE v);
          w1 = w\<lparr>caCert := (case r of Inl _ \<Rightarrow> None | Inr c \<Rightarrow> Some c)\<rparr>
      in if (case r of Inl _ \<Rightarrow> True
                     | Inr c \<Rightarrow> Before (NotAfter (X509 c)) (ONE_MONTH_FROM_TODAY v)) then
           (let w2 = log_Print (''Creating new self-signed CA cert at: '' @ CA_CERT_FILE v) w1
            in case certificateFor e ''Lantern'' (TEN_YEARS_FROM_TODAY v) True None w2 of
                 (Inl err, w3) \<Rightarrow> (Some err, w3\<lparr>caCert := None\<rparr>)
               | (Inr c, w3) \<Rightarrow>
                   (case WriteToFile e (CA_CERT_FILE v) (CertFile c) (w3\<lparr>caCert := Some c\<rparr>) of
                      (Some err, w4) \<Rightarrow> (Some err, w4)
                    | (None, w4) \<Rightarrow>
                        if isDownstream v then
                          AddAsTrustedRoot e c
                            (log_Print ''Adding issuing cert to user trust store as trusted root'' w4)
                        else (None, w4)))
         else (None, w1))"

text \<open>
  Lines 284-295: the server certificate.  The condition of line 286 reads the package
  variable \<open>caCert\<close>.  Line 287 calls \<open>log.Println\<close> with a format string, which prints
  its operands separated by a space.
\<close>

definition newServerCert :: "vars \<Rightarrow> env \<Rightarrow> string \<Rightarrow> world \<Rightarrow> error option \<times> world" where
  "newServerCert v e host w1 =
     (let w2 = log_Print (''Creating new server cert at: %s '' @ SERVER_CERT_FILE v) w1
      in case certificateFor e host (ONE_YEAR_FROM_TODAY v) True (caCert w2) w2 of
           (Inl err, w3) \<Rightarrow> (Some err, w3\<lparr>serverCert := None\<rparr>)
         | (Inr c, w3) \<Rightarrow>
             WriteToFile e (SERVER_CERT_FILE v) (CertFile c) (w3\<lparr>serverCert := Some c\<rparr>))"

definition initCerts_server :: "vars \<Rightarrow> env \<Rightarrow> string \<Rightarrow> world \<Rightarrow> error option \<times> world" where
  "initCerts_server v e host w =
     (let r = LoadCertificateFromFile w (SERVER_CERT_FILE v);
          w1 = w\<lparr>serverCert := (case r of Inl _ \<Rightarrow> None | Inr c \<Rightarrow> Some c)\<rparr>
      in if (case r of Inl _ \<Rightarrow> True | Inr _ \<Rightarrow> False) then newServerCert v e host w1
         else (case caCert w1 of
                 None \<Rightarrow> (Some (Panic ''nil caCert''), w1)
               | Some ca \<Rightarrow>
                   if Before (NotAfter (X509 ca)) (ONE_MONTH_FROM_TODAY v)
                   then newServerCert v e host w1
                   else (None, w1)))"

definition initCerts :: "vars \<Rightarrow> env \<Rightarrow> string \<Rightarrow> world \<Rightarrow> error option \<times> world" where
  "initCerts v e host w =
     (case initCerts_pk v e w of
        (Some err, w1) \<Rightarrow> (Some err, w1)
      | (None, w1) \<Rightarrow>
          (case initCerts_ca v e w1 of
             (Some err, w2) \<Rightarrow> (Some err, w2)
           | (None, w2) \<Rightarrow>
               if isUpstream v then initCerts_server v e host w2 else (None, w2)))"

section \<open>The interception tunnel (\<open>handleClientMITM\<close>, \<open>respondBadGateway\<close>, \<open>pipe\<close>)\<close>

subsection \<open>Connections, requests and events\<close>

text \<open>
  A tunnel has two connections: \<open>Local\<close> is \<open>connIn\<close>, the decrypted connection from the
  local client, and \<open>Upstream\<close> is the connection that \<open>cp.dial\<close> returns.  \<open>cp.dial\<close> is
  not among the sources: whether it fails is decided by the outside world, and, as Go
  functions do, it is taken to return no usable connection together with its error.  So the
  variable \<open>connOut\<close> holds \<open>None\<close> (nil) after a failed dial, and a method call on it
  panics.
\<close>

type_synonym bytes = string

datatype conn = Local | Upstream

record request =
  Method :: string
  URL_Scheme :: string
  URL_Host :: string
  URL_Path :: string
  Host :: string
  Header :: "(string \<times> string) list"
  Body :: bytes

text \<open>
  \<open>cp.rewrite\<close> (the client protocol, not among the sources) and \<open>Request.Write\<close> (the
  wire form of a request, \<open>net/http\<close>) are parameters of the model.
\<close>

record protocol =
  cp_rewrite :: "request \<Rightarrow> request"
  Request_Write :: "request \<Rightarrow> bytes"

text \<open>
  What can be observed on the connections.  A \<open>Write\<close> records which statement wrote,
  the connection, the bytes handed to the call, and whether the call returned without
  error: then all the bytes were written, otherwise any part of them may have been.
  \<open>Eof\<close> records that a read on the connection returned \<open>io.EOF\<close>.
\<close>

datatype origin = By_respondBadGateway | By_req_Write | By_io_Copy

datatype event =
    Write origin conn bytes bool
  | Close conn
  | Eof conn
  | Panicked

subsection \<open>Goroutines\<close>

text \<open>
  The program points at which a goroutine of the tunnel waits for the outside world or
  acts on a connection.  \<open>Respond_Write\<close> and \<open>Respond_Close\<close> are the two statements of
  \<open>respondBadGateway\<close>; their last argument is where the caller continues.  The copy
  goroutines of \<open>pipe\<close> carry the connection of their deferred \<open>Close\<close>, the destination
  and the source of \<open>io.Copy\<close>.
\<close>

datatype goroutine =
    Dial
  | Spawn_Loop
  | Respond_Write string goroutine
  | Respond_Close goroutine
  | Loop_Read
  | Loop_CloseOut string
  | Loop_Write request
  | Loop_Pipe
  | Copy_Read "conn option" "conn option" "conn option"
  | Copy_Write "conn option" "conn option" "conn option" bytes
  | Copy_Close "conn option"
  | Finished

text \<open>What the outside world hands to the statement a goroutine executes next.\<close>

datatype outcome =
    Dialed "error option"
  | Got "error + request"
  | Chunk "error + bytes"
  | Written bool
  | Tick

record tunnel =
  goroutines :: "goroutine list"
  connOut :: "conn option"
  trace :: "event list"
  panicked :: bool

subsection \<open>Operations on connections\<close>

definition emit :: "event \<Rightarrow> tunnel \<Rightarrow> tunnel" where
  "emit ev s = s\<lparr>trace := trace s @ [ev]\<rparr>"

definition is_closed :: "event list \<Rightarrow> conn \<Rightarrow> bool" where
  "is_closed tr c = (Close c \<in> set tr)"

text \<open>
  A write on a connection (\<open>conn.Write\<close>, \<open>Request.Write\<close>): it returns without error when
  the outside world lets it (\<open>ok\<close>) and the connection has not been closed by this program.
  Nothing else is assumed: a write may fail and a later write on the same connection
  succeed.  \<open>Request.Write\<close> in particular also reads the body of the request from the local
  connection and can fail there, with the upstream connection still writable.
\<close>

definition conn_Write :: "origin \<Rightarrow> conn \<Rightarrow> bytes \<Rightarrow> bool \<Rightarrow> tunnel \<Rightarrow> bool \<times> tunnel" where
  "conn_Write by c bs ok s =
     (let delivered = (ok \<and> \<not> is_closed (trace s) c)
      in (delivered, emit (Write by c bs delivered) s))"

definition conn_Close :: "conn \<Rightarrow> tunnel \<Rightarrow> tunnel" where
  "conn_Close c s = emit (Close c) s"

definition panic :: "tunnel \<Rightarrow> tunnel" where
  "panic s = (emit Panicked s)\<lparr>panicked := True\<rparr>"

text \<open>\<open>strings.Split(addr, ":")[0]\<close>\<close>

definition Split_first :: "string \<Rightarrow> string" where
  "Split_first addr = takeWhile (\<lambda>c. c \<noteq> CHR '':'') addr"

subsection \<open>The statements\<close>

text \<open>\<open>respondBadGateway\<close> (lines 235-238), called with the continuation of its caller.\<close>

definition respondBadGateway :: "string \<Rightarrow> goroutine \<Rightarrow> goroutine" where
  "respondBadGateway msg k = Respond_Write msg k"

definition bad_gateway :: "string \<Rightarrow> bytes" where
  "bad_gateway msg = ''HTTP/1.1 502 Bad Gateway: '' @ msg"

text \<open>\<open>pipe\<close> (lines 240-249): the two goroutines it starts.\<close>

definition pipe :: "conn option \<Rightarrow> conn option \<Rightarrow> goroutine list" where
  "pipe cIn cOut = [Copy_Read cIn cOut cIn, Copy_Read cOut cIn cOut]"

text \<open>Lines 212-216: the request as it is handed to \<open>req.Write\<close>.  Line 219 discards the
  error that \<open>req.Write\<close> returns.\<close>

definition rewritten :: "protocol \<Rightarrow> string \<Rightarrow> request \<Rightarrow> request" where
  "rewritten p addr req =
     cp_rewrite p (req\<lparr>URL_Scheme := ''https'', URL_Host := Split_first addr\<rparr>)"

text \<open>
  One statement of one goroutine: the goroutine's next program point, the goroutines it
  starts, and the new state.  \<open>None\<close> when the outcome offered does not fit the statement.
  A panic inside \<open>io.Copy\<close> runs the deferred \<open>Close\<close> before the process dies.
\<close>

fun exec :: "protocol \<Rightarrow> string \<Rightarrow> goroutine \<Rightarrow> outcome \<Rightarrow> tunnel
    \<Rightarrow> (goroutine \<times> goroutine list \<times> tunnel) option" where
  "exec p addr Dial oc s =
     (case oc of
        Dialed None \<Rightarrow> Some (Spawn_Loop, [], s\<lparr>connOut := Some Upstream\<rparr>)
      | Dialed (Some err) \<Rightarrow>
          Some (respondBadGateway (''Unable to dial upstream proxy: '' @ Error_text err) Spawn_Loop,
                [], s\<lparr>connOut := None\<rparr>)
      | _ \<Rightarrow> None)"
| "exec p addr Spawn_Loop oc s =
     (case oc of Tick \<Rightarrow> Some (Finished, [Loop_Read], s) | _ \<Rightarrow> None)"
| "exec p addr (Respond_Write msg k) oc s =
     (case oc of
        Written ok \<Rightarrow>
          Some (Respond_Close k, [],
                snd (conn_Write By_respondBadGateway Local (bad_gateway msg) ok s))
      | _ \<Rightarrow> None)"
| "exec p addr (Respond_Close k) oc s =
     (case oc of Tick \<Rightarrow> Some (k, [], conn_Close Local s) | _ \<Rightarrow> None)"
| "exec p addr Loop_Read oc s =
     (case oc of
        Got (Inr req) \<Rightarrow> Some (Loop_Write req, [], s)
      | Got (Inl err) \<Rightarrow>
          if err \<noteq> EOF
          then Some (Loop_CloseOut (''Unable to read request: '' @ Error_text err), [], s)
          else Some (Finished, [], emit (Eof Local) s)
      | _ \<Rightarrow> None)"
| "exec p addr (Loop_CloseOut msg) oc s =
     (case oc of
        Tick \<Rightarrow>
          (case connOut s of
             None \<Rightarrow> Some (Finished, [], panic s)
           | Some c \<Rightarrow> Some (respondBadGateway msg Finished, [], conn_Close c s))
      | _ \<Rightarrow> None)"
| "exec p addr (Loop_Write req) oc s =
     (case oc of
        Written ok \<Rightarrow>
          (case connOut s of
             None \<Rightarrow> Some (Finished, [], panic s)
           | Some c \<Rightarrow>
               Some (Loop_Pipe, [],
                     snd (conn_Write By_req_Write c (Request_Write p (rewritten p addr req)) ok s)))
      | _ \<Rightarrow> None)"
| "exec p addr Loop_Pipe oc s =
     (case oc of Tick \<Rightarrow> Some (Loop_Read, pipe (Some Local) (connOut s), s) | _ \<Rightarrow> None)"
| "exec p addr (Copy_Read d dst src) oc s =
     (case oc of
        Chunk r \<Rightarrow>
          (case src of
             None \<Rightarrow> Some (Finished, [], panic (case d of None \<Rightarrow> s | Some c \<Rightarrow> conn_Close c s))
           | Some c \<Rightarrow>
               (case r of
                  Inr bs \<Rightarrow> Some (Copy_Write d dst src bs, [], s)
                | Inl err \<Rightarrow> Some (Copy_Close d, [], if err = EOF then emit (Eof c) s else s)))
      | _ \<Rightarrow> None)"
| "exec p addr (Copy_Write d dst src bs) oc s =
     (case oc of
        Written ok \<Rightarrow>
          (case dst of
             None \<Rightarrow> Some (Finished, [], panic (case d of None \<Rightarrow> s | Some c \<Rightarrow> conn_Close c s))
           | Some c \<Rightarrow>
               (case conn_Write By_io_Copy c bs ok s of
                  (True, s1) \<Rightarrow> Some (Copy_Read d dst src, [], s1)
                | (False, s1) \<Rightarrow> Some (Copy_Close d, [], s1)))
      | _ \<Rightarrow> None)"
| "exec p addr (Copy_Close d) oc s =
     (case oc of
        Tick \<Rightarrow>
          (case d of
             None \<Rightarrow> Some (Finished, [], panic s)
           | Some c \<Rightarrow> Some (Finished, [], conn_Close c s))
      | _ \<Rightarrow> None)"
| "exec p addr Finished oc s = None"

subsection \<open>Schedules\<close>

text \<open>
  A schedule names, step by step, the goroutine that runs next and the outcome the outside
  world gives it.  Nothing runs once the process has panicked.  A goroutine that is never
  scheduled again is blocked (its read never returns).
\<close>

definition step :: "protocol \<Rightarrow> string \<Rightarrow> nat \<times> outcome \<Rightarrow> tunnel \<Rightarrow> tunnel option" where
  "step p addr a s =
     (if panicked s \<or> length (goroutines s) \<le> fst a then None
      else (case exec p addr (goroutines s ! fst a) (snd a) s of
              None \<Rightarrow> None
            | Some (g, new, s1) \<Rightarrow>
                Some (s1\<lparr>goroutines := (goroutines s)[fst a := g] @ new\<rparr>)))"

fun run :: "protocol \<Rightarrow> string \<Rightarrow> (nat \<times> outcome) list \<Rightarrow> tunnel \<Rightarrow> tunnel option" where
  "run p addr [] s = Some s"
| "run p addr (a # as) s =
     (case step p addr a s of None \<Rightarrow> None | Some s1 \<Rightarrow> run p addr as s1)"

text \<open>\<open>handleClientMITM\<close> (lines 192-225) is entered with one goroutine, at line 193.\<close>

definition handleClientMITM :: tunnel where
  "handleClientMITM = \<lparr>goroutines = [Dial], connOut = None, trace = [], panicked = False\<rparr>"

definition terminated :: "tunnel \<Rightarrow> bool" where
  "terminated s = list_all (\<lambda>g. g = Finished) (goroutines s)"

section \<open>Observations used in the statements\<close>

subsection \<open>Certificates\<close>

text \<open>The lines that \<open>initCerts\<close> logs when it creates a certificate, and the lines that
  a run has added to the log.\<close>

definition ca_line :: "vars \<Rightarrow> string" where
  "ca_line v = ''Creating new self-signed CA cert at: '' @ CA_CERT_FILE v"

definition server_line :: "vars \<Rightarrow> string" where
  "server_line v = ''Creating new server cert at: %s '' @ SERVER_CERT_FILE v"

definition logged :: "world \<Rightarrow> world \<Rightarrow> string list" where
  "logged w w' = drop (length (log w)) (log w')"

text \<open>The expiry policy: the not-after time lies before the instant one month after the
  start of the process.\<close>

definition about_to_expire :: "vars \<Rightarrow> Certificate \<Rightarrow> bool" where
  "about_to_expire v c = Before (NotAfter (X509 c)) (ONE_MONTH_FROM_TODAY v)"

text \<open>The stored CA certificate \<open>c\<close> was kept: it is the loaded one, its file still holds
  it, and no creation was logged.\<close>

definition ca_kept :: "vars \<Rightarrow> Certificate \<Rightarrow> world \<Rightarrow> world \<Rightarrow> bool" where
  "ca_kept v c w w' =
     (caCert w' = Some c \<and> files w' (CA_CERT_FILE v) = Some (CertFile c) \<and>
      ca_line v \<notin> set (logged w w'))"

text \<open>A new CA certificate was created: self-signed, a CA, valid until ten years after the
  start of the process, written to the CA certificate file, and the creation logged.\<close>

definition ca_regenerated :: "vars \<Rightarrow> world \<Rightarrow> world \<Rightarrow> bool" where
  "ca_regenerated v w w' =
     (case caCert w' of
        None \<Rightarrow> False
      | Some c \<Rightarrow>
          issuedBy c = None \<and> IsCA (X509 c) \<and> NotAfter (X509 c) = TEN_YEARS_FROM_TODAY v \<and>
          files w' (CA_CERT_FILE v) = Some (CertFile c) \<and>
          ca_line v \<in> set (logged w w'))"

subsection \<open>Tunnels\<close>

text \<open>The writes on one connection, in the order of the trace.\<close>

definition writes_to :: "conn \<Rightarrow> event list \<Rightarrow> event list" where
  "writes_to c tr = filter (\<lambda>e. case e of Write _ c' _ _ \<Rightarrow> c' = c | _ \<Rightarrow> False) tr"

text \<open>The first request that a schedule hands to the decode loop: only the read of the
  decode loop (line 202) takes an outcome of the form \<open>Got\<close>.\<close>

fun first_request :: "(nat \<times> outcome) list \<Rightarrow> request option" where
  "first_request [] = None"
| "first_request ((i, Got (Inr req)) # sch) = Some req"
| "first_request (a # sch) = first_request sch"

text \<open>The handler before it has started the decode loop.\<close>

fun handler_phase :: "goroutine \<Rightarrow> bool" where
  "handler_phase Dial = True"
| "handler_phase Spawn_Loop = True"
| "handler_phase (Respond_Write msg k) = handler_phase k"
| "handler_phase (Respond_Close k) = handler_phase k"
| "handler_phase _ = False"

text \<open>A decode loop that has left its \<open>for\<close> statement.\<close>

fun ended_loop :: "goroutine \<Rightarrow> bool" where
  "ended_loop (Loop_CloseOut msg) = True"
| "ended_loop Finished = True"
| "ended_loop (Respond_Write msg k) = ended_loop k"
| "ended_loop (Respond_Close k) = ended_loop k"
| "ended_loop _ = False"

text \<open>
  The ordering invariant, for the state \<open>s\<close> reached under the schedule \<open>sch\<close>.  As long as
  nothing was written upstream there is no copy goroutine: the handler is alone, or the
  decode loop is about to read its first request, or it holds the first request and is
  about to write it, or it has ended.  Afterwards the first upstream write is the write of
  the first request, rewritten.
\<close>

definition ordered :: "protocol \<Rightarrow> string \<Rightarrow> (nat \<times> outcome) list \<Rightarrow> tunnel \<Rightarrow> bool" where
  "ordered p addr sch s =
     (connOut s \<noteq> Some Local \<and>
      (case writes_to Upstream (trace s) of
         [] \<Rightarrow>
           (\<exists>g. goroutines s = [Finished, g] \<and> ended_loop g) \<or>
           (case first_request sch of
              None \<Rightarrow> (\<exists>g. goroutines s = [g] \<and> handler_phase g) \<or>
                       goroutines s = [Finished, Loop_Read]
            | Some req \<Rightarrow> goroutines s = [Finished, Loop_Write req])
       | w # rest \<Rightarrow>
           (\<exists>req ok. first_request sch = Some req \<and>
              w = Write By_req_Write Upstream (Request_Write p (rewritten p addr req)) ok)))"

fun has_Dial :: "goroutine \<Rightarrow> bool" where
  "has_Dial Dial = True"
| "has_Dial (Respond_Write msg k) = has_Dial k"
| "has_Dial (Respond_Close k) = has_Dial k"
| "has_Dial _ = False"

text \<open>\<open>pending co c g\<close>: the goroutine \<open>g\<close> has a \<open>Close\<close> of the connection \<open>c\<close> ahead of
  it on every path (\<open>co\<close> is the value of \<open>connOut\<close>).\<close>

fun pending :: "conn option \<Rightarrow> conn \<Rightarrow> goroutine \<Rightarrow> bool" where
  "pending co c (Respond_Write msg k) = (c = Local \<or> pending co c k)"
| "pending co c (Respond_Close k) = (c = Local \<or> pending co c k)"
| "pending co c (Loop_CloseOut msg) = (c = Local \<or> co = Some c)"
| "pending co c (Loop_Write req) = (c = Local \<or> co = Some c)"
| "pending co c Loop_Pipe = (c = Local \<or> co = Some c)"
| "pending co c (Copy_Read d dst src) = (d = Some c)"
| "pending co c (Copy_Write d dst src bs) = (d = Some c)"
| "pending co c (Copy_Close d) = (d = Some c)"
| "pending co c _ = False"

text \<open>The states before the decode loop has read a request or met an error.\<close>

definition fresh :: "tunnel \<Rightarrow> bool" where
  "fresh s =
     ((trace s = [] \<and>
       (goroutines s = [Dial] \<or> goroutines s = [Spawn_Loop] \<or> goroutines s = [Finished, Loop_Read]))
      \<or> (trace s = [Eof Local] \<and> goroutines s = [Finished, Finished]))"

definition closing :: "tunnel \<Rightarrow> bool" where
  "closing s =
     (list_all (\<lambda>g. \<not> has_Dial g) (goroutines s) \<and>
      (connOut s = None \<or>
       (\<forall>c \<in> {Local, Upstream}.
          is_closed (trace s) c \<or> list_ex (pending (connOut s) c) (goroutines s))))"

definition settled :: "tunnel \<Rightarrow> bool" where
  "settled s = (connOut s \<noteq> Some Local \<and> (panicked s \<or> fresh s \<or> closing s))"

section \<open>Concrete inputs\<close>

subsection \<open>A server process and its files\<close>

text \<open>
  A process in the server role (no \<open>-server\<close> flag), started at 1700000000 seconds after
  the epoch; a month is taken as 30 days and a year as 365 days.
\<close>

definition server_vars :: vars where
  "server_vars = \<lparr>upstreamHost = [], configDir = [], PathSeparator = CHR ''/'',
     ONE_MONTH_FROM_TODAY = 1702592000000000000,
     ONE_YEAR_FROM_TODAY = 1731536000000000000,
     TEN_YEARS_FROM_TODAY = 2015360000000000000\<rparr>"

text \<open>An environment in which nothing fails and successive clock readings are one
  microsecond apart.\<close>

definition calm_env :: env where
  "calm_env = \<lparr>clock = (\<lambda>n. 1700000000000000123 + 1000 * int n),
     AddDate = (\<lambda>t y m d. t + (365 * y + 30 * m + d) * 86400000000000),
     GeneratePK_result = Inr 8,
     Certificate_error = (\<lambda>_. None),
     WriteToFile_error = (\<lambda>_. None),
     AddAsTrustedRoot_error = None\<rparr>"

text \<open>The same, but the two clock readings of the second call of \<open>certificateFor\<close> come
  exactly one second after those of the first call.\<close>

definition second_apart_env :: env where
  "second_apart_env = calm_env\<lparr>clock :=
     (\<lambda>n. 1700000000000000123 + 250 * int (n mod 2) + 1000000000 * int (n div 2))\<rparr>"

definition old_ca :: Certificate where
  "old_ca = Certificate
     \<lparr>SerialNumber = 111,
      Subject = \<lparr>Organization = [''Lantern''], CommonName = ''Lantern''\<rparr>,
      NotBefore = 1380000000000000000, NotAfter = 1700500000000000000,
      BasicConstraintsValid = True, KeyUsage = 37,
      ExtKeyUsage = [ExtKeyUsageServerAuth], IsCA = True\<rparr> None 7"

definition old_server :: Certificate where
  "old_server = Certificate
     \<lparr>SerialNumber = 222,
      Subject = \<lparr>Organization = [''Lantern''], CommonName = ''proxy.example.org''\<rparr>,
      NotBefore = 1690000000000000000, NotAfter = 1720000000000000000,
      BasicConstraintsValid = True, KeyUsage = 5,
      ExtKeyUsage = [], IsCA = False\<rparr> (Some old_ca) 7"

definition good_ca :: Certificate where
  "good_ca = Certificate
     \<lparr>SerialNumber = 333,
      Subject = \<lparr>Organization = [''Lantern''], CommonName = ''Lantern''\<rparr>,
      NotBefore = 1600000000000000000, NotAfter = 1900000000000000000,
      BasicConstraintsValid = True, KeyUsage = 37,
      ExtKeyUsage = [ExtKeyUsageServerAuth], IsCA = True\<rparr> None 7"

definition stale_server :: Certificate where
  "stale_server = Certificate
     \<lparr>SerialNumber = 444,
      Subject = \<lparr>Organization = [''Lantern''], CommonName = ''proxy.example.org''\<rparr>,
      NotBefore = 1668000000000000000, NotAfter = 1700600000000000000,
      BasicConstraintsValid = True, KeyUsage = 5,
      ExtKeyUsage = [], IsCA = False\<rparr> (Some good_ca) 7"

definition no_files :: world where
  "no_files = \<lparr>files = Map.empty, trusted = [], log = [], ticks = 0,
     pk = None, caCert = None, serverCert = None\<rparr>"

text \<open>The key, a CA certificate that expires within a month, and a server certificate
  issued by that CA which is valid for months to come.\<close>

definition rotated_world :: world where
  "rotated_world = no_files\<lparr>files :=
     [''proxypk.pem'' \<mapsto> PKFile 7, ''cacert.pem'' \<mapsto> CertFile old_ca,
      ''servercert.pem'' \<mapsto> CertFile old_server]\<rparr>"

text \<open>The key, a CA certificate valid for years, and a server certificate that expires
  within a month.\<close>

definition expiring_world :: world where
  "expiring_world = no_files\<lparr>files :=
     [''proxypk.pem'' \<mapsto> PKFile 7, ''cacert.pem'' \<mapsto> CertFile good_ca,
      ''servercert.pem'' \<mapsto> CertFile stale_server]\<rparr>"

text \<open>The key and a CA certificate valid for years; no server certificate.\<close>

definition ca_only_world :: world where
  "ca_only_world = no_files\<lparr>files :=
     [''proxypk.pem'' \<mapsto> PKFile 7, ''cacert.pem'' \<mapsto> CertFile good_ca]\<rparr>"

text \<open>Only the key.\<close>

definition pk_only_world :: world where
  "pk_only_world = no_files\<lparr>files := [''proxypk.pem'' \<mapsto> PKFile 7]\<rparr>"

text \<open>The certificates that \<open>certificateFor\<close> produces at the first two clock readings of
  \<open>calm_env\<close>: a CA certificate, and a certificate for a host issued by \<open>good_ca\<close>.\<close>

definition new_ca :: Certificate where
  "new_ca = Certificate
     \<lparr>SerialNumber = 123,
      Subject = \<lparr>Organization = [''Lantern''], CommonName = ''Lantern''\<rparr>,
      NotBefore = 1697408000000001123, NotAfter = 2015360000000000000,
      BasicConstraintsValid = True, KeyUsage = 37,
      ExtKeyUsage = [ExtKeyUsageServerAuth], IsCA = True\<rparr> None 7"

definition new_server :: Certificate where
  "new_server = Certificate
     \<lparr>SerialNumber = 123,
      Subject = \<lparr>Organization = [''Lantern''], CommonName = ''proxy.example.org''\<rparr>,
      NotBefore = 1697408000000001123, NotAfter = 1731536000000000000,
      BasicConstraintsValid = True, KeyUsage = 5,
      ExtKeyUsage = [], IsCA = False\<rparr> (Some good_ca) 7"

text \<open>The two certificates that \<open>initCerts\<close> produces from \<open>pk_only_world\<close> with the
  clock of \<open>second_apart_env\<close>.\<close>

definition twin_ca :: Certificate where
  "twin_ca = Certificate
     \<lparr>SerialNumber = 123,
      Subject = \<lparr>Organization = [''Lantern''], CommonName = ''Lantern''\<rparr>,
      NotBefore = 1697408000000000373, NotAfter = 2015360000000000000,
      BasicConstraintsValid = True, KeyUsage = 37,
      ExtKeyUsage = [ExtKeyUsageServerAuth], IsCA = True\<rparr> None 7"

definition twin_server :: Certificate where
  "twin_server = Certificate
     \<lparr>SerialNumber = 123,
      Subject = \<lparr>Organization = [''Lantern''], CommonName = ''proxy.example.org''\<rparr>,
      NotBefore = 1697408001000000373, NotAfter = 1731536000000000000,
      BasicConstraintsValid = True, KeyUsage = 5,
      ExtKeyUsage = [], IsCA = False\<rparr> (Some twin_ca) 7"

subsection \<open>A tunnel\<close>

definition plain :: protocol where
  "plain = \<lparr>cp_rewrite = (\<lambda>r. r\<lparr>Host := ''front.example''\<rparr>),
     Request_Write = (\<lambda>r. Method r @ '' '' @ URL_Scheme r @ ''://'' @ URL_Host r @ URL_Path r)\<rparr>"

definition get_request :: request where
  "get_request = \<lparr>Method = ''GET'', URL_Scheme = [], URL_Host = [], URL_Path = ''/'',
     Host = ''origin.example'', Header = [], Body = []\<rparr>"

text \<open>The dial is refused; the handler answers and closes.\<close>

definition refused_schedule :: "(nat \<times> outcome) list" where
  "refused_schedule =
     [(0, Dialed (Some (Error ''connection refused''))), (0, Written True), (0, Tick)]"

definition refused_state :: tunnel where
  "refused_state = \<lparr>goroutines = [Spawn_Loop], connOut = None,
     trace = [Write By_respondBadGateway Local
                ''HTTP/1.1 502 Bad Gateway: Unable to dial upstream proxy: connection refused'' True,
              Close Local],
     panicked = False\<rparr>"

text \<open>The dial succeeds and the decode loop is about to read its first request.\<close>

definition reading_state :: tunnel where
  "reading_state = \<lparr>goroutines = [Finished, Loop_Read], connOut = Some Upstream,
     trace = [], panicked = False\<rparr>"

text \<open>The dial succeeds and the local client closes without sending a request.\<close>

definition eof_schedule :: "(nat \<times> outcome) list" where
  "eof_schedule = [(0, Dialed None), (0, Tick), (1, Got (Inl EOF))]"

definition eof_state :: tunnel where
  "eof_state = \<lparr>goroutines = [Finished, Finished], connOut = Some Upstream,
     trace = [Eof Local], panicked = False\<rparr>"

text \<open>One request is read, rewritten and written upstream; the relay then forwards three
  bytes of the local client.\<close>

definition relay_schedule :: "(nat \<times> outcome) list" where
  "relay_schedule =
     [(0, Dialed None), (0, Tick), (1, Got (Inr get_request)), (1, Written True), (1, Tick),
      (2, Chunk (Inr ''abc'')), (2, Written True)]"

definition relay_state :: tunnel where
  "relay_state = \<lparr>goroutines =
       [Finished, Loop_Read, Copy_Read (Some Local) (Some Upstream) (Some Local),
        Copy_Read (Some Upstream) (Some Local) (Some Upstream)],
     connOut = Some Upstream,
     trace = [Write By_req_Write Upstream ''GET https://origin.example/'' True,
              Write By_io_Copy Upstream ''abc'' True],
     panicked = False\<rparr>"

text \<open>After that both sides reach end-of-stream, first the local client, then upstream, and
  the decode loop reads end-of-stream as well.\<close>

definition finished_schedule :: "(nat \<times> outcome) list" where
  "finished_schedule =
     relay_schedule @
     [(2, Chunk (Inl EOF)), (2, Tick), (3, Chunk (Inl EOF)), (3, Tick), (1, Got (Inl EOF))]"

definition finished_state :: tunnel where
  "finished_state = \<lparr>goroutines = [Finished, Finished, Finished, Finished],
     connOut = Some Upstream,
     trace = [Write By_req_Write Upstream ''GET https://origin.example/'' True,
              Write By_io_Copy Upstream ''abc'' True,
              Eof Local, Close Local, Eof Upstream, Close Upstream, Eof Local],
     panicked = False\<rparr>"

text \<open>The upstream side has ended and its copy goroutine has closed the upstream connection;
  the other copy goroutine holds three bytes of the local client that it is about to write
  upstream.\<close>

definition backed_up_state :: tunnel where
  "backed_up_state = \<lparr>goroutines =
       [Finished, Loop_Read, Copy_Write (Some Local) (Some Upstream) (Some Local) ''abc'',
        Finished],
     connOut = Some Upstream,
     trace = [Write By_req_Write Upstream ''GET https://origin.example/'' True,
              Eof Upstream, Close Upstream],
     panicked = False\<rparr>"

text \<open>A request with a body, as the decode loop reads it (the body is still on the local
  connection and is read by \<open>Request.Write\<close>).\<close>

definition post_request :: request where
  "post_request = \<lparr>Method = ''POST'', URL_Scheme = [], URL_Host = [], URL_Path = ''/upload'',
     Host = ''origin.example'', Header = [(''Transfer-Encoding'', ''chunked'')], Body = []\<rparr>"

text \<open>
  The dial succeeds and the decode loop reads \<open>post_request\<close>.  \<open>req.Write\<close> returns an
  error (the body on the local connection ends in a malformed chunk), so the request has
  not been written upstream completely; line 219 discards the error and \<open>pipe\<close> starts.
  The relay then forwards three bytes of the local client, and they are delivered.
\<close>

definition lost_schedule :: "(nat \<times> outcome) list" where
  "lost_schedule =
     [(0, Dialed None), (0, Tick), (1, Got (Inr post_request)), (1, Written False), (1, Tick),
      (2, Chunk (Inr ''abc'')), (2, Written True)]"

definition lost_state :: tunnel where
  "lost_state = \<lparr>goroutines =
       [Finished, Loop_Read, Copy_Read (Some Local) (Some Upstream) (Some Local),
        Copy_Read (Some Upstream) (Some Local) (Some Upstream)],
     connOut = Some Upstream,
     trace = [Write By_req_Write Upstream ''POST https://origin.example/upload'' False,
              Write By_io_Copy Upstream ''abc'' True],
     panicked = False\<rparr>"

text \<open>
  The dial is refused.  The handler answers, closes the local connection and, having no
  \<open>return\<close> after line 196, starts the decode loop.  The first read of the loop, on the
  closed local connection, fails with an error other than \<open>io.EOF\<close>; line 206 then calls
  \<open>Close\<close> on the nil \<open>connOut\<close>.
\<close>

definition panic_schedule :: "(nat \<times> outcome) list" where
  "panic_schedule =
     refused_schedule @
     [(0, Tick), (1, Got (Inl (Error ''use of closed network connection''))), (1, Tick)]"

definition panic_state :: tunnel where
  "panic_state = \<lparr>goroutines = [Finished, Finished], connOut = None,
     trace = [Write By_respondBadGateway Local
                ''HTTP/1.1 502 Bad Gateway: Unable to dial upstream proxy: connection refused'' True,
              Close Local,
              Panicked],
     panicked = True\<rparr>"

section \<open>Properties of the certificate management\<close>

subsection \<open>Auxiliary facts\<close>

lemma files_distinct:
  "PK_FILE v \<noteq> CA_CERT_FILE v"
  "PK_FILE v \<noteq> SERVER_CERT_FILE v"
  "CA_CERT_FILE v \<noteq> SERVER_CERT_FILE v"
  by (simp_all add: PK_FILE_def CA_CERT_FILE_def SERVER_CERT_FILE_def inConfigDir_def)

lemma certificateFor_Inr:
  assumes "certificateFor e name validUntil isCA issuer w = (Inr c, w')"
  shows "w' = w\<lparr>ticks := Suc (Suc (ticks w))\<rparr>
    \<and> issuedBy c = issuer
    \<and> SerialNumber (X509 c) = Nanosecond (clock e (ticks w))
    \<and> NotAfter (X509 c) = validUntil
    \<and> CommonName (Subject (X509 c)) = name
    \<and> IsCA (X509 c) = (issuer = None)
    \<and> ExtKeyUsage (X509 c) = (if issuer = None then [ExtKeyUsageServerAuth] else [])
    \<and> KeyUsage (X509 c) =
           (if issuer = None \<and> isCA
            then (KeyUsageKeyEncipherment OR KeyUsageDigitalSignature) OR KeyUsageCertSign
            else KeyUsageKeyEncipherment OR KeyUsageDigitalSignature)"
  using assms
  by (auto simp: certificateFor_def time_Now_def PrivateKey_Certificate_def Let_def
      split: option.splits prod.splits if_splits)

lemma certificateFor_world:
  "snd (certificateFor e name validUntil isCA issuer w) = w\<lparr>ticks := Suc (Suc (ticks w))\<rparr>"
  by (simp add: certificateFor_def time_Now_def Let_def split: prod.splits)

lemma certificateFor_snd:
  "certificateFor e name validUntil isCA issuer w = (r, w')
   \<Longrightarrow> w' = w\<lparr>ticks := Suc (Suc (ticks w))\<rparr>"
  using certificateFor_world[of e name validUntil isCA issuer w] by simp

lemma logged_append: "log w' = log w @ ls \<Longrightarrow> logged w w' = ls"
  by (simp add: logged_def)

lemma initCerts_pk_files:
  assumes "initCerts_pk v e w = (r, w1)" "p \<noteq> PK_FILE v"
  shows "files w1 p = files w p"
  using assms
  by (auto simp: initCerts_pk_def WriteToFile_def log_Print_def Let_def
      split: sum.splits option.splits)

lemma initCerts_pk_log:
  assumes "initCerts_pk v e w = (r, w1)"
  shows "\<exists>ls. log w1 = log w @ ls \<and> ca_line v \<notin> set ls \<and> server_line v \<notin> set ls"
  using assms
  by (auto simp: initCerts_pk_def WriteToFile_def log_Print_def Let_def ca_line_def
        server_line_def
      split: sum.splits option.splits)

lemma initCerts_ca_result:
  assumes "initCerts_ca v e w1 = (None, w2)"
  shows "case files w1 (CA_CERT_FILE v) of
           Some (CertFile c) \<Rightarrow>
             if about_to_expire v c then ca_regenerated v w1 w2 else ca_kept v c w1 w2
         | _ \<Rightarrow> ca_regenerated v w1 w2"
  using assms
  by (auto simp: initCerts_ca_def LoadCertificateFromFile_def Let_def about_to_expire_def
        ca_kept_def ca_regenerated_def logged_def log_Print_def WriteToFile_def
        AddAsTrustedRoot_def ca_line_def
      split: option.splits disk_file.splits prod.splits sum.splits if_splits
      dest!: certificateFor_Inr)

lemma initCerts_ca_log:
  assumes "initCerts_ca v e w1 = (r, w2)"
  shows "\<exists>ls. log w2 = log w1 @ ls"
  using assms
  by (auto simp: initCerts_ca_def Let_def log_Print_def WriteToFile_def AddAsTrustedRoot_def
      split: option.splits disk_file.splits prod.splits sum.splits if_splits
      dest!: certificateFor_snd)

lemma initCerts_server_ca:
  assumes "initCerts_server v e host w2 = (r, w3)"
  shows "caCert w3 = caCert w2 \<and> files w3 (CA_CERT_FILE v) = files w2 (CA_CERT_FILE v)
     \<and> (\<exists>ls. log w3 = log w2 @ ls \<and> ca_line v \<notin> set ls)"
  using assms files_distinct(3)[of v]
  by (auto simp: initCerts_server_def newServerCert_def LoadCertificateFromFile_def Let_def
        log_Print_def WriteToFile_def ca_line_def
      split: option.splits disk_file.splits prod.splits sum.splits if_splits
      dest!: certificateFor_snd)

lemma newServerCert_result:
  assumes "newServerCert v e host w = (None, w')" "caCert w = Some ca"
  shows "\<exists>c. serverCert w' = Some c \<and> issuedBy c = Some ca \<and> \<not> IsCA (X509 c)
     \<and> ExtKeyUsage (X509 c) = []
     \<and> KeyUsage (X509 c) = KeyUsageKeyEncipherment OR KeyUsageDigitalSignature"
  using assms
  by (auto simp: newServerCert_def Let_def log_Print_def WriteToFile_def
      split: option.splits prod.splits sum.splits if_splits
      dest!: certificateFor_Inr)

subsection \<open>Regeneration of the CA certificate\<close>

text \<open>
  Claim C3.  When \<open>initCerts\<close> returns without error, it has created a new CA certificate
  (self-signed, valid until ten years after the start of the process, written to the CA
  certificate file) exactly when the CA certificate file was absent, did not hold a
  readable certificate, or held one whose not-after time lies before the instant one
  month after the start of the process; otherwise the stored certificate is the CA
  certificate in use and its file is unchanged.  (\<open>Before\<close> is strict: a certificate that
  expires exactly one month after the start is kept.)
\<close>

theorem initCerts_ca_regeneration:
  assumes "initCerts v e host w = (None, w')"
  shows "case files w (CA_CERT_FILE v) of
           Some (CertFile c) \<Rightarrow>
             if about_to_expire v c then ca_regenerated v w w' else ca_kept v c w w'
         | _ \<Rightarrow> ca_regenerated v w w'"
proof -
  from assms obtain w1 w2 where
    pk: "initCerts_pk v e w = (None, w1)" and
    ca: "initCerts_ca v e w1 = (None, w2)" and
    sv: "w' = w2 \<or> initCerts_server v e host w2 = (None, w')"
    by (auto simp: initCerts_def split: prod.splits option.splits if_splits)
  have f1: "files w1 (CA_CERT_FILE v) = files w (CA_CERT_FILE v)"
    using initCerts_pk_files[OF pk] files_distinct(1)[of v] by metis
  obtain l1 where l1: "log w1 = log w @ l1" "ca_line v \<notin> set l1"
    using initCerts_pk_log[OF pk] by blast
  have keep: "caCert w' = caCert w2 \<and> files w' (CA_CERT_FILE v) = files w2 (CA_CERT_FILE v)
     \<and> (\<exists>ls. log w' = log w2 @ ls \<and> ca_line v \<notin> set ls)"
    using sv initCerts_server_ca by auto
  then obtain l3 where l3: "log w' = log w2 @ l3" "ca_line v \<notin> set l3" by blast
  obtain l2 where l2: "log w2 = log w1 @ l2"
    using initCerts_ca_log[OF ca] by blast
  have "logged w w' = l1 @ l2 @ l3" "logged w1 w2 = l2"
    using l1 l2 l3 by (simp_all add: logged_append)
  then have lg: "ca_line v \<in> set (logged w w') \<longleftrightarrow> ca_line v \<in> set (logged w1 w2)"
    using l1 l3 by simp
  show ?thesis
    using initCerts_ca_result[OF ca] keep lg
    by (auto simp: f1 ca_kept_def ca_regenerated_def
        split: option.splits disk_file.splits if_splits)
qed

text \<open>
  Claim C3 at two inputs: with the expiring CA certificate of \<open>rotated_world\<close> a new one is
  created, with the long-lived CA certificate of \<open>expiring_world\<close> the stored one is kept.
\<close>

theorem initCerts_ca_regeneration_witness:
  "fst (initCerts server_vars calm_env ''proxy.example.org'' rotated_world) = None
   \<and> ca_regenerated server_vars rotated_world
        (snd (initCerts server_vars calm_env ''proxy.example.org'' rotated_world))
   \<and> fst (initCerts server_vars calm_env ''proxy.example.org'' expiring_world) = None
   \<and> ca_kept server_vars good_ca expiring_world
        (snd (initCerts server_vars calm_env ''proxy.example.org'' expiring_world))"
proof -
  let ?r1 = "initCerts server_vars calm_env ''proxy.example.org'' rotated_world"
  let ?r2 = "initCerts server_vars calm_env ''proxy.example.org'' expiring_world"
  have f1: "fst ?r1 = None" by code_simp
  have f2: "fst ?r2 = None" by code_simp
  have h1: "?r1 = (None, snd ?r1)" using f1 by (simp add: prod_eq_iff)
  have h2: "?r2 = (None, snd ?r2)" using f2 by (simp add: prod_eq_iff)
  have c1: "files rotated_world (CA_CERT_FILE server_vars) = Some (CertFile old_ca)"
    by (simp add: rotated_world_def no_files_def CA_CERT_FILE_def inConfigDir_def server_vars_def)
  have c2: "files expiring_world (CA_CERT_FILE server_vars) = Some (CertFile good_ca)"
    by (simp add: expiring_world_def no_files_def CA_CERT_FILE_def inConfigDir_def
        server_vars_def)
  have e1: "about_to_expire server_vars old_ca"
    by (simp add: about_to_expire_def Before_def server_vars_def old_ca_def)
  have e2: "\<not> about_to_expire server_vars good_ca"
    by (simp add: about_to_expire_def Before_def server_vars_def good_ca_def)
  show ?thesis
    using initCerts_ca_regeneration[OF h1] initCerts_ca_regeneration[OF h2] f1 f2
    by (simp add: c1 c2 e1 e2)
qed

subsection \<open>The server certificate after a change of CA\<close>

text \<open>
  What the server block of \<open>initCerts\<close> does (lines 284-295).  When it is reached the
  CA certificate in use is never about to expire: it was either loaded and found valid for
  more than a month, or just created with ten years of validity.  So the test on
  \<open>caCert\<close> in line 286 is false, and the server certificate is created exactly when
  its file does not hold a readable certificate.
\<close>

lemma initCerts_ca_fresh:
  assumes "initCerts_ca v e w1 = (None, w2)"
    and "ONE_MONTH_FROM_TODAY v \<le> TEN_YEARS_FROM_TODAY v"
  shows "\<exists>ca. caCert w2 = Some ca \<and> \<not> about_to_expire v ca"
  using assms
  by (auto simp: initCerts_ca_def LoadCertificateFromFile_def Let_def about_to_expire_def
        Before_def log_Print_def WriteToFile_def AddAsTrustedRoot_def
      split: option.splits disk_file.splits prod.splits sum.splits if_splits
      dest!: certificateFor_Inr)

lemma initCerts_ca_files:
  assumes "initCerts_ca v e w1 = (r, w2)" "p \<noteq> CA_CERT_FILE v"
  shows "files w2 p = files w1 p"
  using assms
  by (auto simp: initCerts_ca_def Let_def log_Print_def WriteToFile_def AddAsTrustedRoot_def
      split: option.splits disk_file.splits prod.splits sum.splits if_splits
      dest!: certificateFor_snd)

lemma initCerts_ca_no_server_line:
  assumes "initCerts_ca v e w1 = (r, w2)"
  shows "\<exists>ls. log w2 = log w1 @ ls \<and> server_line v \<notin> set ls"
  using assms
  by (auto simp: initCerts_ca_def Let_def log_Print_def WriteToFile_def AddAsTrustedRoot_def
        server_line_def
      split: option.splits disk_file.splits prod.splits sum.splits if_splits
      dest!: certificateFor_snd)

lemma initCerts_server_result:
  assumes "initCerts_server v e host w2 = (None, w3)" "caCert w2 = Some ca"
    "\<not> about_to_expire v ca"
  shows "case files w2 (SERVER_CERT_FILE v) of
           Some (CertFile c) \<Rightarrow> serverCert w3 = Some c \<and> log w3 = log w2
         | _ \<Rightarrow> (\<exists>c. serverCert w3 = Some c \<and> issuedBy c = Some ca)
                 \<and> log w3 = log w2 @ [server_line v]"
  using assms
  by (auto simp: initCerts_server_def newServerCert_def LoadCertificateFromFile_def Let_def
        about_to_expire_def log_Print_def WriteToFile_def server_line_def
      split: option.splits disk_file.splits prod.splits sum.splits if_splits
      dest!: certificateFor_Inr)

lemma initCerts_server_regeneration:
  assumes "initCerts v e host w = (None, w')" "isUpstream v"
    and "ONE_MONTH_FROM_TODAY v \<le> TEN_YEARS_FROM_TODAY v"
  shows "case files w (SERVER_CERT_FILE v) of
           Some (CertFile c) \<Rightarrow> serverCert w' = Some c \<and> server_line v \<notin> set (logged w w')
         | _ \<Rightarrow> (\<exists>c. serverCert w' = Some c \<and> issuedBy c = caCert w')
                 \<and> server_line v \<in> set (logged w w')"
proof -
  from assms(1,2) obtain w1 w2 where
    pk: "initCerts_pk v e w = (None, w1)" and
    ca: "initCerts_ca v e w1 = (None, w2)" and
    sv: "initCerts_server v e host w2 = (None, w')"
    by (auto simp: initCerts_def split: prod.splits option.splits if_splits)
  from initCerts_ca_fresh[OF ca assms(3)] obtain c0 where
    c0: "caCert w2 = Some c0" "\<not> about_to_expire v c0" by blast
  have f: "files w2 (SERVER_CERT_FILE v) = files w (SERVER_CERT_FILE v)"
    using initCerts_pk_files[OF pk, of "SERVER_CERT_FILE v"]
      initCerts_ca_files[OF ca, of "SERVER_CERT_FILE v"] files_distinct[of v]
    by metis
  obtain l1 where l1: "log w1 = log w @ l1" "server_line v \<notin> set l1"
    using initCerts_pk_log[OF pk] by blast
  obtain l2 where l2: "log w2 = log w1 @ l2" "server_line v \<notin> set l2"
    using initCerts_ca_no_server_line[OF ca] by blast
  have cc: "caCert w' = caCert w2" using initCerts_server_ca[OF sv] by simp
  show ?thesis
    using initCerts_server_result[OF sv c0] l1 l2 c0
    by (auto simp: f cc logged_def split: option.splits disk_file.splits)
qed


subsection \<open>The server certificate near its own expiry\<close>

text \<open>
  Claim C2, evaluated on \<open>expiring_world\<close> in the server role: the server certificate on
  disk loads and its own not-after time lies within one month; the CA certificate is valid
  for years.  \<open>initCerts\<close> returns without error, keeps the expiring server certificate and
  logs nothing: line 286 tests the expiry of \<open>caCert\<close>, not of \<open>serverCert\<close>.
\<close>

theorem initCerts_keeps_expiring_server_cert:
  "fst (initCerts server_vars calm_env ''proxy.example.org'' expiring_world) = None
   \<and> isUpstream server_vars
   \<and> about_to_expire server_vars stale_server
   \<and> serverCert (snd (initCerts server_vars calm_env ''proxy.example.org'' expiring_world))
       = Some stale_server
   \<and> log (snd (initCerts server_vars calm_env ''proxy.example.org'' expiring_world)) = []"
  by code_simp

subsection \<open>Serial numbers\<close>

text \<open>
  Claim C4 fails: in the server role with no certificate on disk, \<open>initCerts\<close> calls
  \<open>certificateFor\<close> twice, for the CA and for the server certificate.  When the second
  call reads the clock exactly one second after the first, the two certificates differ
  and both have the serial number 123.
\<close>

theorem serial_collision:
  "fst (initCerts server_vars second_apart_env ''proxy.example.org'' pk_only_world) = None
   \<and> caCert (snd (initCerts server_vars second_apart_env ''proxy.example.org'' pk_only_world))
       = Some twin_ca
   \<and> serverCert (snd (initCerts server_vars second_apart_env ''proxy.example.org'' pk_only_world))
       = Some twin_server
   \<and> twin_ca \<noteq> twin_server
   \<and> SerialNumber (X509 twin_ca) = SerialNumber (X509 twin_server)
   \<and> clock second_apart_env 0 + 1000000000 = clock second_apart_env 2"
  by code_simp

text \<open>
  Claim C4 as amended.  The serial number of a certificate that \<open>certificateFor\<close> generates
  is the nanosecond-within-the-second of the clock reading taken at its generation, a
  number from 0 to 999999999.  Two generated certificates have distinct serial numbers
  exactly when those two readings differ in that component.
\<close>

theorem certificateFor_serial:
  assumes "certificateFor e name1 until1 isCA1 issuer1 w1 = (Inr c1, w1')"
    and "certificateFor e name2 until2 isCA2 issuer2 w2 = (Inr c2, w2')"
  shows "SerialNumber (X509 c1) = clock e (ticks w1) mod 1000000000
    \<and> 0 \<le> SerialNumber (X509 c1) \<and> SerialNumber (X509 c1) < 1000000000
    \<and> (SerialNumber (X509 c1) \<noteq> SerialNumber (X509 c2)
         \<longleftrightarrow> clock e (ticks w1) mod 1000000000 \<noteq> clock e (ticks w2) mod 1000000000)"
  using certificateFor_Inr[OF assms(1)] certificateFor_Inr[OF assms(2)]
  by (simp add: Nanosecond_def)

text \<open>
  Claim C4 as amended, at two calls in \<open>calm_env\<close> whose clock readings are two
  microseconds apart: the serial numbers are 123 and 2123.
\<close>

theorem certificateFor_serial_witness:
  "certificateFor calm_env ''Lantern'' 2015360000000000000 True None
       (no_files\<lparr>pk := Some 7\<rparr>)
     = (Inr new_ca, no_files\<lparr>pk := Some 7, ticks := 2\<rparr>)
   \<and> fst (certificateFor calm_env ''proxy.example.org'' 1731536000000000000 True (Some new_ca)
       (no_files\<lparr>pk := Some 7, ticks := 2\<rparr>))
     = Inr (Certificate ((X509 new_server)\<lparr>SerialNumber := 2123,
                           NotBefore := 1697408000000003123\<rparr>) (Some new_ca) 7)
   \<and> SerialNumber (X509 new_ca) = 123
   \<and> SerialNumber (X509 new_ca) \<noteq> 2123"
proof -
  let ?w = "no_files\<lparr>pk := Some 7\<rparr>"
  let ?w2 = "no_files\<lparr>pk := Some 7, ticks := 2\<rparr>"
  let ?c2 = "Certificate ((X509 new_server)\<lparr>SerialNumber := 2123,
                           NotBefore := 1697408000000003123\<rparr>) (Some new_ca) 7"
  have h1: "certificateFor calm_env ''Lantern'' 2015360000000000000 True None ?w
              = (Inr new_ca, ?w2)"
    by (simp add: certificateFor_def time_Now_def PrivateKey_Certificate_def calm_env_def
        no_files_def new_ca_def Nanosecond_def KeyUsageKeyEncipherment_def
        KeyUsageDigitalSignature_def KeyUsageCertSign_def numeral_2_eq_2)
  have h2: "certificateFor calm_env ''proxy.example.org'' 1731536000000000000 True (Some new_ca) ?w2
              = (Inr ?c2, snd (certificateFor calm_env ''proxy.example.org'' 1731536000000000000
                   True (Some new_ca) ?w2))"
    by (simp add: certificateFor_def time_Now_def PrivateKey_Certificate_def calm_env_def
        no_files_def new_server_def Nanosecond_def KeyUsageKeyEncipherment_def
        KeyUsageDigitalSignature_def)
  have f2: "fst (certificateFor calm_env ''proxy.example.org'' 1731536000000000000 True
              (Some new_ca) ?w2) = Inr ?c2"
    using h2 by (simp add: prod_eq_iff)
  have s: "SerialNumber (X509 new_ca) = 123"
    by (simp add: new_ca_def)
  show ?thesis
    using certificateFor_serial[OF h1 h2] h1 f2 s by simp
qed

subsection \<open>Usage of issued certificates\<close>

text \<open>
  Claim C5 fails: in the server role, with a valid CA certificate and no server certificate
  on disk, \<open>initCerts\<close> generates the server certificate \<open>new_server\<close> with \<open>good_ca\<close> as
  issuer; its list of extended key usages is empty, not server-authentication.
\<close>

theorem server_cert_without_server_auth:
  "fst (initCerts server_vars calm_env ''proxy.example.org'' ca_only_world) = None
   \<and> isUpstream server_vars
   \<and> serverCert (snd (initCerts server_vars calm_env ''proxy.example.org'' ca_only_world))
       = Some new_server
   \<and> issuedBy new_server = Some good_ca
   \<and> ExtKeyUsage (X509 new_server) \<noteq> [ExtKeyUsageServerAuth]"
  by code_simp

text \<open>
  Claim C5 as amended.  Every certificate that \<open>certificateFor\<close> generates with an issuer
  (as the server certificate is, with the CA certificate) has key usage
  digital-signature + key-encipherment and no extended key usage; the
  server-authentication extended usage is set only on self-signed certificates.
\<close>

theorem certificateFor_issued_usage:
  assumes "certificateFor e name validUntil isCA (Some ca) w = (Inr c, w')"
  shows "issuedBy c = Some ca
    \<and> KeyUsage (X509 c) = KeyUsageKeyEncipherment OR KeyUsageDigitalSignature
    \<and> KeyUsage (X509 c) = 5
    \<and> ExtKeyUsage (X509 c) = []"
  using certificateFor_Inr[OF assms]
  by (simp add: KeyUsageKeyEncipherment_def KeyUsageDigitalSignature_def)

text \<open>Claim C5 as amended, at the generation of \<open>new_server\<close> with issuer \<open>good_ca\<close>.\<close>

theorem certificateFor_issued_usage_witness:
  "fst (certificateFor calm_env ''proxy.example.org'' 1731536000000000000 True (Some good_ca)
       (no_files\<lparr>pk := Some 7\<rparr>)) = Inr new_server
   \<and> issuedBy new_server = Some good_ca
   \<and> KeyUsage (X509 new_server) = 5
   \<and> ExtKeyUsage (X509 new_server) = []"
proof -
  let ?r = "certificateFor calm_env ''proxy.example.org'' 1731536000000000000 True (Some good_ca)
       (no_files\<lparr>pk := Some 7\<rparr>)"
  have f: "fst ?r = Inr new_server"
    by (simp add: certificateFor_def time_Now_def PrivateKey_Certificate_def calm_env_def
        no_files_def new_server_def Nanosecond_def KeyUsageKeyEncipherment_def
        KeyUsageDigitalSignature_def)
  have h: "?r = (Inr new_server, snd ?r)" using f by (simp add: prod_eq_iff)
  show ?thesis using certificateFor_issued_usage[OF h] f by simp
qed

subsection \<open>The effect of \<open>isCA\<close>\<close>

text \<open>
  Claim C10.  In \<open>certificateFor\<close> the argument \<open>isCA\<close> matters only for the key usage of
  self-signed certificates.  With an issuer the result does not depend on \<open>isCA\<close>, and the
  certificate has the CA flag unset and no extended key usage; so has the server
  certificate, which \<open>initCerts\<close> requests with \<open>isCA = true\<close>.  Without an issuer the
  certificate has the CA flag set and the server-authentication extended usage whatever
  \<open>isCA\<close> is, and the certificates for \<open>isCA\<close> true and false differ in the key usage
  only (certificate-signing is added when \<open>isCA\<close> is true).
\<close>

theorem certificateFor_isCA_effect:
  "certificateFor e name validUntil True (Some i) w = certificateFor e name validUntil False (Some i) w
   \<and> (certificateFor e name validUntil isCA (Some i) w = (Inr c, w')
        \<longrightarrow> \<not> IsCA (X509 c) \<and> ExtKeyUsage (X509 c) = []
            \<and> KeyUsage (X509 c) = KeyUsageKeyEncipherment OR KeyUsageDigitalSignature)
   \<and> (caCert w = Some i \<and> newServerCert v e host w = (None, w')
        \<longrightarrow> (\<exists>sc. serverCert w' = Some sc \<and> \<not> IsCA (X509 sc) \<and> ExtKeyUsage (X509 sc) = []))
   \<and> (certificateFor e name validUntil isCA None w = (Inr c, w')
        \<longrightarrow> IsCA (X509 c) \<and> ExtKeyUsage (X509 c) = [ExtKeyUsageServerAuth]
            \<and> KeyUsage (X509 c) =
                (if isCA
                 then (KeyUsageKeyEncipherment OR KeyUsageDigitalSignature) OR KeyUsageCertSign
                 else KeyUsageKeyEncipherment OR KeyUsageDigitalSignature))
   \<and> (certificateFor e name validUntil True None w = (Inr c1, w1)
        \<and> certificateFor e name validUntil False None w = (Inr c2, w2)
        \<longrightarrow> w1 = w2 \<and> issuedBy c1 = issuedBy c2 \<and> signedWith c1 = signedWith c2
            \<and> X509 c2 = (X509 c1)\<lparr>KeyUsage := KeyUsage (X509 c2)\<rparr>)"
proof (intro conjI impI)
  show "certificateFor e name validUntil True (Some i) w
          = certificateFor e name validUntil False (Some i) w"
    by (simp add: certificateFor_def Let_def split: prod.splits)
next
  assume "certificateFor e name validUntil isCA (Some i) w = (Inr c, w')"
  from certificateFor_Inr[OF this]
  show "\<not> IsCA (X509 c)" "ExtKeyUsage (X509 c) = []"
    "KeyUsage (X509 c) = KeyUsageKeyEncipherment OR KeyUsageDigitalSignature"
    by simp_all
next
  assume "caCert w = Some i \<and> newServerCert v e host w = (None, w')"
  then show "\<exists>sc. serverCert w' = Some sc \<and> \<not> IsCA (X509 sc) \<and> ExtKeyUsage (X509 sc) = []"
    using newServerCert_result[of v e host w w' i] by blast
next
  assume "certificateFor e name validUntil isCA None w = (Inr c, w')"
  from certificateFor_Inr[OF this]
  show "IsCA (X509 c)" "ExtKeyUsage (X509 c) = [ExtKeyUsageServerAuth]"
    "KeyUsage (X509 c) =
       (if isCA then (KeyUsageKeyEncipherment OR KeyUsageDigitalSignature) OR KeyUsageCertSign
        else KeyUsageKeyEncipherment OR KeyUsageDigitalSignature)"
    by simp_all
next
  assume a: "certificateFor e name validUntil True None w = (Inr c1, w1)
        \<and> certificateFor e name validUntil False None w = (Inr c2, w2)"
  then show "w1 = w2" "issuedBy c1 = issuedBy c2" "signedWith c1 = signedWith c2"
    "X509 c2 = (X509 c1)\<lparr>KeyUsage := KeyUsage (X509 c2)\<rparr>"
    by (auto simp: certificateFor_def time_Now_def PrivateKey_Certificate_def Let_def
        split: option.splits prod.splits if_splits)
qed

text \<open>
  Claim C10 at the generation of \<open>new_server\<close> (issuer \<open>good_ca\<close>, \<open>isCA\<close> true) and of
  \<open>new_ca\<close> (no issuer, \<open>isCA\<close> true, key usage 37 = 1 + 4 + 32).
\<close>

theorem certificateFor_isCA_effect_witness:
  "fst (certificateFor calm_env ''proxy.example.org'' 1731536000000000000 True (Some good_ca)
       (no_files\<lparr>pk := Some 7\<rparr>)) = Inr new_server
   \<and> \<not> IsCA (X509 new_server) \<and> ExtKeyUsage (X509 new_server) = []
   \<and> fst (certificateFor calm_env ''Lantern'' 2015360000000000000 True None
       (no_files\<lparr>pk := Some 7\<rparr>)) = Inr new_ca
   \<and> IsCA (X509 new_ca) \<and> ExtKeyUsage (X509 new_ca) = [ExtKeyUsageServerAuth]
   \<and> KeyUsage (X509 new_ca) = 37"
proof -
  let ?w = "no_files\<lparr>pk := Some 7\<rparr>"
  let ?r1 = "certificateFor calm_env ''proxy.example.org'' 1731536000000000000 True (Some good_ca) ?w"
  let ?r2 = "certificateFor calm_env ''Lantern'' 2015360000000000000 True None ?w"
  have f1: "fst ?r1 = Inr new_server"
    by (simp add: certificateFor_def time_Now_def PrivateKey_Certificate_def calm_env_def
        no_files_def new_server_def Nanosecond_def KeyUsageKeyEncipherment_def
        KeyUsageDigitalSignature_def)
  have f2: "fst ?r2 = Inr new_ca"
    by (simp add: certificateFor_def time_Now_def PrivateKey_Certificate_def calm_env_def
        no_files_def new_ca_def Nanosecond_def KeyUsageKeyEncipherment_def
        KeyUsageDigitalSignature_def KeyUsageCertSign_def)
  have h1: "?r1 = (Inr new_server, snd ?r1)" using f1 by (simp add: prod_eq_iff)
  have h2: "?r2 = (Inr new_ca, snd ?r2)" using f2 by (simp add: prod_eq_iff)
  have k: "(KeyUsageKeyEncipherment OR KeyUsageDigitalSignature) OR KeyUsageCertSign = 37"
    by (simp add: KeyUsageKeyEncipherment_def KeyUsageDigitalSignature_def KeyUsageCertSign_def)
  from certificateFor_isCA_effect[of calm_env "''proxy.example.org''" 1731536000000000000
      good_ca ?w True new_server "snd ?r1"]
  have a: "\<not> IsCA (X509 new_server) \<and> ExtKeyUsage (X509 new_server) = []"
    using h1 by simp
  from certificateFor_isCA_effect[of calm_env "''Lantern''" 2015360000000000000
      good_ca ?w True new_ca "snd ?r2"]
  have b: "IsCA (X509 new_ca) \<and> ExtKeyUsage (X509 new_ca) = [ExtKeyUsageServerAuth]
      \<and> KeyUsage (X509 new_ca) = 37"
    using h2 k by simp
  show ?thesis using a b f1 f2 by simp
qed

section \<open>Properties of the interception tunnel\<close>

subsection \<open>Steps and traces\<close>

lemma stepD:
  assumes "step p addr a s = Some s'"
  shows "\<not> panicked s \<and> fst a < length (goroutines s) \<and>
         (\<exists>g new s1. exec p addr (goroutines s ! fst a) (snd a) s = Some (g, new, s1) \<and>
            s' = s1\<lparr>goroutines := (goroutines s)[fst a := g] @ new\<rparr>)"
  using assms by (auto simp: step_def split: if_splits option.splits)

lemma step_single:
  assumes "step p addr a s = Some s'" "goroutines s = [g]"
  shows "\<exists>g' new s1. exec p addr g (snd a) s = Some (g', new, s1) \<and>
            s' = s1\<lparr>goroutines := g' # new\<rparr>"
  using stepD[OF assms(1)] assms(2) by auto

lemma exec_trace:
  assumes "exec p addr g oc s = Some (g', new, s1)"
  shows "\<exists>evs. trace s1 = trace s @ evs"
  using assms
  by (cases g)
     (auto simp: conn_Write_def conn_Close_def emit_def panic_def Let_def
           split: outcome.splits option.splits sum.splits if_splits prod.splits bool.splits)

lemma step_trace:
  assumes "step p addr a s = Some s'"
  shows "\<exists>evs. trace s' = trace s @ evs"
  using stepD[OF assms] exec_trace by fastforce

lemma run_trace:
  "run p addr sch s = Some s' \<Longrightarrow> \<exists>evs. trace s' = trace s @ evs"
proof (induction sch arbitrary: s)
  case Nil
  then show ?case by simp
next
  case (Cons a sch)
  then obtain s1 where a: "step p addr a s = Some s1" and r: "run p addr sch s1 = Some s'"
    by (auto split: option.splits)
  from step_trace[OF a] Cons.IH[OF r] show ?case by auto
qed

lemma terminated_stuck: "terminated s \<Longrightarrow> step p addr a s = None"
  by (auto simp: terminated_def step_def list_all_length)

lemma conn_neq_Local: "(c \<noteq> Local) = (c = Upstream)"
  by (cases c) auto

lemma list_all_update_append:
  assumes "list_all P xs" "P g" "list_all P new"
  shows "list_all P (xs[i := g] @ new)"
  using assms set_update_subset_insert[of xs i g] by (auto simp: list_all_iff)

lemma list_ex_update_append:
  assumes "list_ex P xs" "i < length xs" "P (xs ! i) \<longrightarrow> P g \<or> list_ex P new"
  shows "list_ex P (xs[i := g] @ new)"
proof -
  from assms(1) obtain j where j: "j < length xs" "P (xs ! j)"
    by (auto simp: list_ex_length)
  show ?thesis
  proof (cases "j = i")
    case True
    with j assms(3) have "P g \<or> list_ex P new" by simp
    then show ?thesis
    proof
      assume "P g"
      then have "P ((xs[i := g] @ new) ! i)" using assms(2) by (simp add: nth_append)
      then show ?thesis using assms(2) by (auto simp: list_ex_length intro!: exI[of _ i])
    next
      assume "list_ex P new"
      then show ?thesis by (auto simp: list_ex_iff)
    qed
  next
    case False
    with j have "P ((xs[i := g] @ new) ! j)" by (simp add: nth_append)
    then show ?thesis using j by (auto simp: list_ex_length intro!: exI[of _ j])
  qed
qed

subsection \<open>A failed dial\<close>

text \<open>
  Claim C6.  When the upstream dial fails with error \<open>err\<close>, the handler's next two
  statements need nothing from the outside world: it writes the literal bytes
  \<open>HTTP/1.1 502 Bad Gateway: Unable to dial upstream proxy: \<close> followed by the text of
  \<open>err\<close> to the local connection and then closes the local connection.  No other
  goroutine exists yet, so in every run that starts with a failed dial and goes on for at
  least two steps these are the first two events.
\<close>

theorem dial_failure_responds_and_closes:
  "run p addr [(0, Dialed (Some err)), (0, Written ok), (0, Tick)] handleClientMITM =
     Some \<lparr>goroutines = [Spawn_Loop], connOut = None,
           trace = [Write By_respondBadGateway Local
                     (''HTTP/1.1 502 Bad Gateway: Unable to dial upstream proxy: '' @ Error_text err)
                     ok,
                    Close Local],
           panicked = False\<rparr>
   \<and> (run p addr ((0, Dialed (Some err)) # sch) handleClientMITM = Some s \<and> 2 \<le> length sch
        \<longrightarrow> (\<exists>ok' rest. trace s =
               Write By_respondBadGateway Local
                 (''HTTP/1.1 502 Bad Gateway: Unable to dial upstream proxy: '' @ Error_text err)
                 ok'
               # Close Local # rest))"
proof (intro conjI impI)
  show "run p addr [(0, Dialed (Some err)), (0, Written ok), (0, Tick)] handleClientMITM =
     Some \<lparr>goroutines = [Spawn_Loop], connOut = None,
           trace = [Write By_respondBadGateway Local
                     (''HTTP/1.1 502 Bad Gateway: Unable to dial upstream proxy: '' @ Error_text err)
                     ok,
                    Close Local],
           panicked = False\<rparr>"
    by (simp add: handleClientMITM_def step_def respondBadGateway_def conn_Write_def
        conn_Close_def emit_def is_closed_def bad_gateway_def)
next
  assume a: "run p addr ((0, Dialed (Some err)) # sch) handleClientMITM = Some s
               \<and> 2 \<le> length sch"
  let ?msg = "''Unable to dial upstream proxy: '' @ Error_text err"
  let ?s1 = "\<lparr>goroutines = [Respond_Write ?msg Spawn_Loop], connOut = None, trace = [],
              panicked = False\<rparr>"
  from a obtain x y sch' where sch: "sch = x # y # sch'"
    by (cases sch; cases "tl sch") auto
  have d: "step p addr (0, Dialed (Some err)) handleClientMITM = Some ?s1"
    by (simp add: handleClientMITM_def step_def respondBadGateway_def)
  from a d obtain s2 s3 where
    x: "step p addr x ?s1 = Some s2" and y: "step p addr y s2 = Some s3"
    and r: "run p addr sch' s3 = Some s"
    by (auto simp: sch split: option.splits)
  from step_single[OF x] obtain ok' where
    s2: "s2 = \<lparr>goroutines = [Respond_Close Spawn_Loop], connOut = None,
              trace = [Write By_respondBadGateway Local (bad_gateway ?msg) ok'],
              panicked = False\<rparr>"
    by (auto simp: conn_Write_def emit_def Let_def is_closed_def split: outcome.splits)
  have g2: "goroutines s2 = [Respond_Close Spawn_Loop]" by (simp add: s2)
  from step_single[OF y g2] have
    s3: "trace s3 = [Write By_respondBadGateway Local (bad_gateway ?msg) ok', Close Local]"
    by (auto simp: s2 conn_Close_def emit_def split: outcome.splits)
  from run_trace[OF r] s3
  show "\<exists>ok' rest. trace s =
               Write By_respondBadGateway Local
                 (''HTTP/1.1 502 Bad Gateway: Unable to dial upstream proxy: '' @ Error_text err)
                 ok'
               # Close Local # rest"
    by (auto simp: bad_gateway_def)
qed

text \<open>Claim C6 at a refused dial: the run reaches \<open>refused_state\<close>, whose trace is the
  response followed by the close.\<close>

theorem dial_failure_responds_and_closes_witness:
  "run plain ''origin.example:443'' refused_schedule handleClientMITM = Some refused_state
   \<and> 2 \<le> length (tl refused_schedule)
   \<and> trace refused_state =
       [Write By_respondBadGateway Local
          ''HTTP/1.1 502 Bad Gateway: Unable to dial upstream proxy: connection refused'' True,
        Close Local]"
proof -
  have r: "run plain ''origin.example:443'' refused_schedule handleClientMITM = Some refused_state"
    using dial_failure_responds_and_closes[of plain "''origin.example:443''"
        "Error ''connection refused''" True]
    by (simp add: refused_schedule_def refused_state_def)
  have l: "2 \<le> length (tl refused_schedule)"
    by (simp add: refused_schedule_def)
  show ?thesis using r l by (simp add: refused_state_def)
qed

subsection \<open>Read errors in the decode loop\<close>

text \<open>
  In a tunnel that has an upstream connection \<open>c\<close>, the decode loop does what lines 203-209
  say.  When its read returns \<open>io.EOF\<close> the loop ends at once: nothing is written and
  nothing is closed.  When it returns any other error, the loop's next statements close
  the upstream connection, write the bad-gateway response with the text of the error to
  the local connection, close the local connection, and the loop ends.
\<close>

lemma decode_loop_with_upstream:
  assumes "\<not> panicked s" "i < length (goroutines s)" "goroutines s ! i = Loop_Read"
    "connOut s = Some c"
  shows "step p addr (i, Got (Inl EOF)) s =
           Some (s\<lparr>goroutines := (goroutines s)[i := Finished], trace := trace s @ [Eof Local]\<rparr>)
       \<and> (err \<noteq> EOF \<longrightarrow>
            run p addr [(i, Got (Inl err)), (i, Tick), (i, Written ok), (i, Tick)] s =
              Some (s\<lparr>goroutines := (goroutines s)[i := Finished],
                      trace := trace s @
                        [Close c,
                         Write By_respondBadGateway Local
                           (''HTTP/1.1 502 Bad Gateway: Unable to read request: '' @ Error_text err)
                           (ok \<and> \<not> is_closed (trace s @ [Close c]) Local),
                         Close Local]\<rparr>))"
  using assms
  by (auto simp add: step_def emit_def respondBadGateway_def conn_Close_def conn_Write_def
        Let_def bad_gateway_def)

text \<open>
  Claim C7, evaluated on \<open>panic_schedule\<close>.  The dial is refused, and the handler goes on
  to start the decode loop although there is no upstream connection: line 196 is not
  followed by a \<open>return\<close>.  The loop's read on the local connection, which
  \<open>respondBadGateway\<close> has closed, returns an error other than \<open>io.EOF\<close>.  The loop then
  calls \<open>connOut.Close()\<close> on nil and the process panics: no upstream connection is
  closed, and the response \<open>Unable to read request\<close> is never written.  The trace ends
  with the panic.
\<close>

theorem decode_loop_panics_after_failed_dial:
  "run plain ''origin.example:443'' panic_schedule handleClientMITM = Some panic_state
   \<and> panicked panic_state
   \<and> connOut panic_state = None
   \<and> trace panic_state =
       [Write By_respondBadGateway Local
          ''HTTP/1.1 502 Bad Gateway: Unable to dial upstream proxy: connection refused'' True,
        Close Local,
        Panicked]
   \<and> Write By_respondBadGateway Local
        ''HTTP/1.1 502 Bad Gateway: Unable to read request: use of closed network connection''
        True \<notin> set (trace panic_state)
   \<and> Write By_respondBadGateway Local
        ''HTTP/1.1 502 Bad Gateway: Unable to read request: use of closed network connection''
        False \<notin> set (trace panic_state)
   \<and> Close Upstream \<notin> set (trace panic_state)"
  by code_simp

subsection \<open>The first request and the relay\<close>

lemma writes_to_append [simp]: "writes_to c (xs @ ys) = writes_to c xs @ writes_to c ys"
  by (simp add: writes_to_def)

lemma writes_to_simps [simp]:
  "writes_to c [] = []"
  "writes_to c (Write by c' bs ok # tr) =
     (if c' = c then Write by c' bs ok # writes_to c tr else writes_to c tr)"
  "writes_to c (Close c' # tr) = writes_to c tr"
  "writes_to c (Eof c' # tr) = writes_to c tr"
  "writes_to c (Panicked # tr) = writes_to c tr"
  by (simp_all add: writes_to_def)

lemma singleton_eq_append: "[x] = us @ y # vs \<Longrightarrow> x = y"
  by (cases us) auto

lemma first_request_snoc:
  "first_request (sch @ [a]) =
     (case first_request sch of None \<Rightarrow> first_request [a] | Some req \<Rightarrow> Some req)"
  by (induction sch rule: first_request.induct) simp_all

lemma run_snoc:
  "run p addr (sch @ [a]) s =
     (case run p addr sch s of None \<Rightarrow> None | Some s1 \<Rightarrow> step p addr a s1)"
  by (induction sch arbitrary: s) (auto split: option.splits)

lemma exec_upstream_writes:
  assumes "exec p addr g0 oc s = Some (g, new, s1)" "connOut s \<noteq> Some Local"
  shows "connOut s1 \<noteq> Some Local \<and>
     (\<exists>ws. writes_to Upstream (trace s1) = writes_to Upstream (trace s) @ ws)"
  using assms
  by (cases g0)
     (auto simp: conn_Write_def conn_Close_def emit_def panic_def Let_def
           split: outcome.splits option.splits sum.splits if_splits prod.splits bool.splits)

lemma exec_handler_phase:
  assumes "exec p addr g0 oc s = Some (g, new, s1)" "handler_phase g0"
    "connOut s \<noteq> Some Local"
  shows "connOut s1 \<noteq> Some Local
     \<and> writes_to Upstream (trace s1) = writes_to Upstream (trace s)
     \<and> first_request [(i, oc)] = None
     \<and> ((new = [] \<and> handler_phase g) \<or> (new = [Loop_Read] \<and> g = Finished))"
  using assms
  by (cases g0)
     (auto simp: conn_Write_def conn_Close_def emit_def Let_def respondBadGateway_def
           split: outcome.splits option.splits)

lemma exec_ended_loop:
  assumes "exec p addr g0 oc s = Some (g, new, s1)" "ended_loop g0"
  shows "connOut s1 = connOut s
     \<and> writes_to Upstream (trace s1) = writes_to Upstream (trace s)
     \<and> first_request [(i, oc)] = None
     \<and> new = [] \<and> ended_loop g"
  using assms
  by (cases g0)
     (auto simp: conn_Write_def conn_Close_def emit_def panic_def Let_def respondBadGateway_def
           split: outcome.splits option.splits)

lemma step_ordered:
  assumes "ordered p addr sch s" "step p addr a s = Some s'"
  shows "ordered p addr (sch @ [a]) s'"
proof -
  obtain i oc where a: "a = (i, oc)" by (cases a)
  from stepD[OF assms(2)] obtain g new s1 where
    i: "i < length (goroutines s)" and
    ex: "exec p addr (goroutines s ! i) oc s = Some (g, new, s1)" and
    s': "s' = s1\<lparr>goroutines := (goroutines s)[i := g] @ new\<rparr>"
    by (auto simp: a)
  from assms(1) have co: "connOut s \<noteq> Some Local" by (simp add: ordered_def)
  from exec_upstream_writes[OF ex co] obtain ws where
    co1: "connOut s1 \<noteq> Some Local" and
    ws: "writes_to Upstream (trace s1) = writes_to Upstream (trace s) @ ws"
    by blast
  show ?thesis
  proof (cases "writes_to Upstream (trace s)")
    case (Cons w rest)
    with assms(1) obtain req ok where
      "first_request sch = Some req"
      "w = Write By_req_Write Upstream (Request_Write p (rewritten p addr req)) ok"
      by (auto simp: ordered_def)
    then show ?thesis
      using Cons ws co1 by (simp add: ordered_def s' first_request_snoc)
  next
    case Nil
    with assms(1) consider
        (ended) g0 where "goroutines s = [Finished, g0]" "ended_loop g0"
      | (handler) g0 where "goroutines s = [g0]" "handler_phase g0" "first_request sch = None"
      | (reading) "goroutines s = [Finished, Loop_Read]" "first_request sch = None"
      | (writing) req where "goroutines s = [Finished, Loop_Write req]"
          "first_request sch = Some req"
      by (auto simp: ordered_def split: option.splits)
    then show ?thesis
    proof cases
      case ended
      with i have "i = 0 \<or> i = 1" by auto
      then show ?thesis
      proof
        assume "i = 0"
        with ended ex show ?thesis by simp
      next
        assume i1: "i = 1"
        with ended ex have e: "exec p addr g0 oc s = Some (g, new, s1)" by simp
        from exec_ended_loop[OF e ended(2), of i] show ?thesis
          using Nil ended co i1 by (auto simp: ordered_def s')
      qed
    next
      case handler
      with i have i0: "i = 0" by auto
      with handler ex have e: "exec p addr g0 oc s = Some (g, new, s1)" by simp
      from exec_handler_phase[OF e handler(2) co, of i] show ?thesis
        using Nil handler i0
        by (auto simp: ordered_def s' a first_request_snoc)
    next
      case reading
      with i have "i = 0 \<or> i = 1" by auto
      with reading ex Nil co show ?thesis
        by (auto simp: ordered_def s' a first_request_snoc emit_def
            split: outcome.splits sum.splits if_splits)
    next
      case writing
      with i have "i = 0 \<or> i = 1" by auto
      with writing ex Nil co show ?thesis
        by (auto simp: ordered_def s' a first_request_snoc emit_def conn_Write_def Let_def
              panic_def conn_neq_Local
            split: outcome.splits option.splits)
    qed
  qed
qed

lemma run_ordered:
  "run p addr sch handleClientMITM = Some s \<Longrightarrow> ordered p addr sch s"
proof (induction sch arbitrary: s rule: rev_induct)
  case Nil
  then show ?case by (auto simp: ordered_def handleClientMITM_def)
next
  case (snoc a sch)
  from snoc.prems obtain s1 where r: "run p addr sch handleClientMITM = Some s1"
    and st: "step p addr a s1 = Some s"
    by (auto simp: run_snoc split: option.splits)
  from step_ordered[OF snoc.IH[OF r] st] show ?case .
qed

text \<open>
  Claim C8 fails: the decode loop reads \<open>post_request\<close> and \<open>req.Write\<close> returns an error,
  so the rewritten request was not written upstream completely.  Line 219 discards the
  error; \<open>pipe\<close> starts, and the relay delivers bytes of the local client to the upstream
  connection.  No complete write of the first request precedes them.
\<close>

theorem relay_after_failed_request:
  "run plain ''origin.example:443'' lost_schedule handleClientMITM = Some lost_state
   \<and> first_request lost_schedule = Some post_request
   \<and> Request_Write plain (rewritten plain ''origin.example:443'' post_request)
       = ''POST https://origin.example/upload''
   \<and> trace lost_state =
       [Write By_req_Write Upstream ''POST https://origin.example/upload'' False,
        Write By_io_Copy Upstream ''abc'' True]
   \<and> Write By_req_Write Upstream ''POST https://origin.example/upload'' True
       \<notin> set (trace lost_state)"
  by code_simp

text \<open>
  Claim C8 as amended.  In every run of a tunnel, under every schedule, each write of the
  relay (\<open>io.Copy\<close>) to the upstream connection comes after the call of \<open>req.Write\<close> that
  hands the upstream connection the complete first request the decode loop has read, with
  its URL scheme set to \<open>https\<close>, its URL host set to the host of \<open>addr\<close> and \<open>cp.rewrite\<close>
  applied; nothing was written upstream before that call.  Whether the call succeeded is
  not checked by the program: the relay follows a failed call as well.
\<close>

theorem request_before_relay:
  assumes "run p addr sch handleClientMITM = Some s"
    and "trace s = pre @ Write By_io_Copy Upstream bs delivered # post"
  shows "\<exists>req ok pre1 pre2.
           first_request sch = Some req
           \<and> pre = pre1 @ Write By_req_Write Upstream
                      (Request_Write p
                         (cp_rewrite p (req\<lparr>URL_Scheme := ''https'',
                                             URL_Host := takeWhile (\<lambda>c. c \<noteq> CHR '':'') addr\<rparr>)))
                      ok # pre2
           \<and> writes_to Upstream pre1 = []"
proof -
  let ?W = "Write By_io_Copy Upstream bs delivered"
  have ord: "ordered p addr sch s" using run_ordered[OF assms(1)] .
  have wt: "writes_to Upstream (trace s) = writes_to Upstream pre @ ?W # writes_to Upstream post"
    by (simp add: assms(2))
  then have "writes_to Upstream (trace s) \<noteq> []" by simp
  then obtain w rest where wr: "writes_to Upstream (trace s) = w # rest"
    by (auto simp: neq_Nil_conv)
  with ord obtain req ok where
    fr: "first_request sch = Some req" and
    w: "w = Write By_req_Write Upstream (Request_Write p (rewritten p addr req)) ok"
    by (auto simp: ordered_def)
  from wt wr w obtain rest' where pre: "writes_to Upstream pre = w # rest'"
    by (cases "writes_to Upstream pre") auto
  from pre obtain us vs where "pre = us @ w # vs"
    "\<forall>u\<in>set us. \<not> (case u of Write _ c' _ _ \<Rightarrow> c' = Upstream | _ \<Rightarrow> False)"
    unfolding writes_to_def filter_eq_Cons_iff by blast
  then have "pre = us @ w # vs \<and> writes_to Upstream us = []"
    by (auto simp: writes_to_def filter_empty_conv)
  with w fr show ?thesis
    unfolding rewritten_def Split_first_def by blast
qed

text \<open>
  Claim C8 as amended, at \<open>relay_schedule\<close>, where the write of the request succeeds, and at
  \<open>lost_schedule\<close>, where it fails: in both the write of the first request read
  (\<open>GET https://origin.example/\<close>, \<open>POST https://origin.example/upload\<close>) is the first
  event on the upstream connection and precedes the relayed bytes \<open>abc\<close>.
\<close>

theorem request_before_relay_witness:
  "run plain ''origin.example:443'' relay_schedule handleClientMITM = Some relay_state
   \<and> trace relay_state =
       [Write By_req_Write Upstream ''GET https://origin.example/'' True]
       @ Write By_io_Copy Upstream ''abc'' True # []
   \<and> first_request relay_schedule = Some get_request
   \<and> Request_Write plain
        (cp_rewrite plain (get_request\<lparr>URL_Scheme := ''https'',
                                        URL_Host := takeWhile (\<lambda>c. c \<noteq> CHR '':'')
                                                      ''origin.example:443''\<rparr>))
       = ''GET https://origin.example/''
   \<and> run plain ''origin.example:443'' lost_schedule handleClientMITM = Some lost_state
   \<and> trace lost_state =
       [Write By_req_Write Upstream ''POST https://origin.example/upload'' False]
       @ Write By_io_Copy Upstream ''abc'' True # []
   \<and> first_request lost_schedule = Some post_request
   \<and> Request_Write plain
        (cp_rewrite plain (post_request\<lparr>URL_Scheme := ''https'',
                                         URL_Host := takeWhile (\<lambda>c. c \<noteq> CHR '':'')
                                                       ''origin.example:443''\<rparr>))
       = ''POST https://origin.example/upload''"
proof -
  have r1: "run plain ''origin.example:443'' relay_schedule handleClientMITM = Some relay_state"
    by code_simp
  have t1: "trace relay_state =
       [Write By_req_Write Upstream ''GET https://origin.example/'' True]
       @ Write By_io_Copy Upstream ''abc'' True # []"
    by (simp add: relay_state_def)
  have r2: "run plain ''origin.example:443'' lost_schedule handleClientMITM = Some lost_state"
    by code_simp
  have t2: "trace lost_state =
       [Write By_req_Write Upstream ''POST https://origin.example/upload'' False]
       @ Write By_io_Copy Upstream ''abc'' True # []"
    by (simp add: lost_state_def)
  have f1: "first_request relay_schedule = Some get_request"
    by (simp add: relay_schedule_def)
  have f2: "first_request lost_schedule = Some post_request"
    by (simp add: lost_schedule_def)
  from request_before_relay[OF r1 t1] f1
  have b1: "Request_Write plain
        (cp_rewrite plain (get_request\<lparr>URL_Scheme := ''https'',
                                        URL_Host := takeWhile (\<lambda>c. c \<noteq> CHR '':'')
                                                      ''origin.example:443''\<rparr>))
       = ''GET https://origin.example/''"
    by (auto dest: singleton_eq_append)
  from request_before_relay[OF r2 t2] f2
  have b2: "Request_Write plain
        (cp_rewrite plain (post_request\<lparr>URL_Scheme := ''https'',
                                         URL_Host := takeWhile (\<lambda>c. c \<noteq> CHR '':'')
                                                       ''origin.example:443''\<rparr>))
       = ''POST https://origin.example/upload''"
    by (auto dest: singleton_eq_append)
  from r1 t1 f1 b1 r2 t2 f2 b2 show ?thesis by blast
qed

subsection \<open>Which connections are closed when a tunnel has finished\<close>

lemma exec_closing:
  assumes "exec p addr g0 oc s = Some (g, new, s1)" "\<not> has_Dial g0"
  shows "connOut s1 = connOut s \<and> \<not> has_Dial g \<and> list_all (\<lambda>g. \<not> has_Dial g) new \<and>
     (\<exists>evs. trace s1 = trace s @ evs) \<and>
     (\<forall>c. pending (connOut s) c g0 \<longrightarrow>
        panicked s1 \<or> is_closed (trace s1) c \<or> pending (connOut s) c g \<or>
        list_ex (pending (connOut s) c) new)"
  using assms
  by (cases g0)
     (auto simp: conn_Write_def conn_Close_def emit_def panic_def Let_def respondBadGateway_def
           pipe_def is_closed_def
           split: outcome.splits option.splits sum.splits if_splits prod.splits bool.splits)

lemma step_fresh:
  assumes "fresh s" "connOut s \<noteq> Some Local" "step p addr a s = Some s'"
  shows "settled s'"
proof -
  from stepD[OF assms(3)] obtain g new s1 where
    i: "fst a < length (goroutines s)" and
    ex: "exec p addr (goroutines s ! fst a) (snd a) s = Some (g, new, s1)" and
    s': "s' = s1\<lparr>goroutines := (goroutines s)[fst a := g] @ new\<rparr>"
    by blast
  from assms(1) consider
      "trace s = []" "goroutines s = [Dial]"
    | "trace s = []" "goroutines s = [Spawn_Loop]"
    | "trace s = []" "goroutines s = [Finished, Loop_Read]"
    | "trace s = [Eof Local]" "goroutines s = [Finished, Finished]"
    by (auto simp: fresh_def)
  then show ?thesis
  proof cases
    case 1
    with i ex s' assms(2) show ?thesis
      by (auto simp: settled_def fresh_def closing_def respondBadGateway_def
          split: outcome.splits option.splits)
  next
    case 2
    with i ex s' assms(2) show ?thesis
      by (auto simp: settled_def fresh_def closing_def split: outcome.splits option.splits)
  next
    case 3
    with i have "fst a = 0 \<or> fst a = 1" by auto
    with 3 ex s' assms(2) show ?thesis
      by (auto simp: settled_def fresh_def closing_def emit_def conn_neq_Local
          split: outcome.splits option.splits sum.splits if_splits)
  next
    case 4
    with i have "fst a = 0 \<or> fst a = 1" by auto
    with 4 ex show ?thesis by auto
  qed
qed

lemma step_closing:
  assumes "closing s" "connOut s \<noteq> Some Local" "step p addr a s = Some s'"
  shows "settled s'"
proof -
  from stepD[OF assms(3)] obtain g new s1 where
    i: "fst a < length (goroutines s)" and
    ex: "exec p addr (goroutines s ! fst a) (snd a) s = Some (g, new, s1)" and
    s': "s' = s1\<lparr>goroutines := (goroutines s)[fst a := g] @ new\<rparr>"
    by blast
  from assms(1) have nd: "list_all (\<lambda>g. \<not> has_Dial g) (goroutines s)"
    by (simp add: closing_def)
  with i have nd0: "\<not> has_Dial (goroutines s ! fst a)" by (simp add: list_all_length)
  from exec_closing[OF ex nd0] obtain evs where
    co: "connOut s1 = connOut s" and ndg: "\<not> has_Dial g" and
    ndn: "list_all (\<lambda>g. \<not> has_Dial g) new" and
    tr: "trace s1 = trace s @ evs" and
    pe: "\<And>c. pending (connOut s) c (goroutines s ! fst a) \<Longrightarrow>
          panicked s1 \<or> is_closed (trace s1) c \<or> pending (connOut s) c g \<or>
          list_ex (pending (connOut s) c) new"
    by blast
  have nd': "list_all (\<lambda>g. \<not> has_Dial g) (goroutines s')"
    using list_all_update_append[of "\<lambda>g. \<not> has_Dial g" "goroutines s" g new "fst a",
        OF nd ndg ndn]
    by (simp add: s')
  have co': "connOut s' = connOut s" by (simp add: s' co)
  show ?thesis
  proof (cases "panicked s1 \<or> connOut s = None")
    case True
    then show ?thesis using nd' co' assms(2) by (auto simp: settled_def closing_def s')
  next
    case False
    have "is_closed (trace s') c \<or> list_ex (pending (connOut s') c) (goroutines s')" for c
    proof (cases "is_closed (trace s) c")
      case True
      then show ?thesis by (simp add: s' tr is_closed_def)
    next
      case nc: False
      with assms(1) False have le: "list_ex (pending (connOut s) c) (goroutines s)"
        by (cases c) (auto simp: closing_def)
      show ?thesis
      proof (cases "is_closed (trace s1) c")
        case True
        then show ?thesis by (simp add: s')
      next
        case False
        with pe[of c] \<open>\<not> (panicked s1 \<or> connOut s = None)\<close>
        have "pending (connOut s) c (goroutines s ! fst a) \<longrightarrow>
                pending (connOut s) c g \<or> list_ex (pending (connOut s) c) new"
          by blast
        from list_ex_update_append[OF le i this] show ?thesis
          by (simp add: s' co)
      qed
    qed
    then show ?thesis using nd' co' assms(2) by (auto simp: settled_def closing_def)
  qed
qed

lemma step_settled:
  assumes "settled s" "step p addr a s = Some s'"
  shows "settled s'"
proof -
  from stepD[OF assms(2)] have "\<not> panicked s" by blast
  with assms(1) have "connOut s \<noteq> Some Local" "fresh s \<or> closing s"
    by (auto simp: settled_def)
  then show ?thesis using step_fresh step_closing assms(2) by blast
qed

lemma run_settled:
  "settled s \<Longrightarrow> run p addr sch s = Some s' \<Longrightarrow> settled s'"
proof (induction sch arbitrary: s)
  case Nil
  then show ?case by simp
next
  case (Cons a sch)
  from Cons.prems(2) obtain s1 where a: "step p addr a s = Some s1"
    and r: "run p addr sch s1 = Some s'"
    by (auto split: option.splits)
  from Cons.IH[OF step_settled[OF Cons.prems(1) a] r] show ?case .
qed

lemma settled_start: "settled handleClientMITM"
  by (simp add: settled_def fresh_def handleClientMITM_def)

text \<open>
  Claim C9 fails: the dial succeeds and the first read of the decode loop returns
  end-of-stream.  The loop returns; every goroutine of the tunnel has finished, so no
  further step exists (\<open>terminated_stuck\<close>); the local connection has reached
  end-of-stream, and the upstream connection was never closed.
\<close>

theorem eof_leaves_upstream_open:
  "run plain ''origin.example:443'' eof_schedule handleClientMITM = Some eof_state
   \<and> terminated eof_state
   \<and> Eof Local \<in> set (trace eof_state)
   \<and> \<not> is_closed (trace eof_state) Upstream
   \<and> \<not> is_closed (trace eof_state) Local"
  by code_simp

text \<open>
  Claim C9 as amended.  Under every schedule: once all goroutines of a tunnel whose dial
  succeeded have finished, both connections have been closed, unless the decode loop met
  end-of-stream before it read any request (then the trace holds that end-of-stream
  alone).  A copy goroutine of the relay closes the connection \<open>a\<close> it reads from, and only
  that one, when its copy ends: when its read returns end-of-stream or an error, or when
  its write to the other connection \<open>b\<close> fails, as it does once \<open>b\<close> is closed.
\<close>

theorem finished_tunnel_closed:
  "(run p addr sch handleClientMITM = Some s \<and> terminated s \<and> \<not> panicked s
      \<and> connOut s = Some Upstream
      \<longrightarrow> (is_closed (trace s) Local \<and> is_closed (trace s) Upstream) \<or> trace s = [Eof Local])
   \<and> (\<not> panicked t \<and> i < length (goroutines t)
      \<and> goroutines t ! i = Copy_Read (Some a) (Some b) (Some a)
      \<longrightarrow> run p addr [(i, Chunk (Inl err)), (i, Tick)] t =
           Some (t\<lparr>goroutines := (goroutines t)[i := Finished],
                   trace := trace t @ (if err = EOF then [Eof a] else []) @ [Close a]\<rparr>))
   \<and> (\<not> panicked t \<and> i < length (goroutines t)
      \<and> goroutines t ! i = Copy_Write (Some a) (Some b) (Some a) bs \<and> is_closed (trace t) b
      \<longrightarrow> run p addr [(i, Written ok), (i, Tick)] t =
           Some (t\<lparr>goroutines := (goroutines t)[i := Finished],
                   trace := trace t @ [Write By_io_Copy b bs False, Close a]\<rparr>))"
proof (intro conjI impI)
  assume a: "run p addr sch handleClientMITM = Some s \<and> terminated s \<and> \<not> panicked s
      \<and> connOut s = Some Upstream"
  then have "settled s" using run_settled[OF settled_start] by blast
  with a consider "fresh s" | "closing s" by (auto simp: settled_def)
  then show "(is_closed (trace s) Local \<and> is_closed (trace s) Upstream) \<or> trace s = [Eof Local]"
  proof cases
    case 1
    with a show ?thesis by (auto simp: fresh_def terminated_def)
  next
    case 2
    have "\<not> list_ex (pending (connOut s) c) (goroutines s)" for c
      using a by (auto simp: terminated_def list_ex_iff list_all_iff)
    with 2 a show ?thesis by (auto simp: closing_def)
  qed
next
  assume "\<not> panicked t \<and> i < length (goroutines t)
      \<and> goroutines t ! i = Copy_Read (Some a) (Some b) (Some a)"
  then show "run p addr [(i, Chunk (Inl err)), (i, Tick)] t =
           Some (t\<lparr>goroutines := (goroutines t)[i := Finished],
                   trace := trace t @ (if err = EOF then [Eof a] else []) @ [Close a]\<rparr>)"
    by (auto simp add: step_def emit_def conn_Close_def)
next
  assume "\<not> panicked t \<and> i < length (goroutines t)
      \<and> goroutines t ! i = Copy_Write (Some a) (Some b) (Some a) bs \<and> is_closed (trace t) b"
  then show "run p addr [(i, Written ok), (i, Tick)] t =
           Some (t\<lparr>goroutines := (goroutines t)[i := Finished],
                   trace := trace t @ [Write By_io_Copy b bs False, Close a]\<rparr>)"
    by (auto simp add: step_def emit_def conn_Close_def conn_Write_def Let_def)
qed

text \<open>
  Claim C9 as amended, at three inputs.  At \<open>finished_schedule\<close> a request was relayed,
  all goroutines have ended and both connections are closed.  In \<open>relay_state\<close> the copy
  goroutine that reads the local connection meets end-of-stream and closes the local
  connection only.  In \<open>backed_up_state\<close> the upstream connection is closed; the write of
  the other copy goroutine fails and it closes the local connection.
\<close>

theorem finished_tunnel_closed_witness:
  "run plain ''origin.example:443'' finished_schedule handleClientMITM = Some finished_state
   \<and> terminated finished_state \<and> \<not> panicked finished_state
   \<and> connOut finished_state = Some Upstream
   \<and> is_closed (trace finished_state) Local \<and> is_closed (trace finished_state) Upstream
   \<and> trace finished_state \<noteq> [Eof Local]
   \<and> \<not> panicked relay_state \<and> 2 < length (goroutines relay_state)
   \<and> goroutines relay_state ! 2 = Copy_Read (Some Local) (Some Upstream) (Some Local)
   \<and> run plain ''origin.example:443'' [(2, Chunk (Inl EOF)), (2, Tick)] relay_state =
       Some (relay_state\<lparr>goroutines := (goroutines relay_state)[2 := Finished],
               trace := trace relay_state @ [Eof Local, Close Local]\<rparr>)
   \<and> \<not> panicked backed_up_state \<and> 2 < length (goroutines backed_up_state)
   \<and> goroutines backed_up_state ! 2
       = Copy_Write (Some Local) (Some Upstream) (Some Local) ''abc''
   \<and> is_closed (trace backed_up_state) Upstream
   \<and> run plain ''origin.example:443'' [(2, Written True), (2, Tick)] backed_up_state =
       Some (backed_up_state\<lparr>goroutines := (goroutines backed_up_state)[2 := Finished],
               trace := trace backed_up_state
                  @ [Write By_io_Copy Upstream ''abc'' False, Close Local]\<rparr>)"
proof -
  have r: "run plain ''origin.example:443'' finished_schedule handleClientMITM
             = Some finished_state"
    by code_simp
  have h: "terminated finished_state" "\<not> panicked finished_state"
    "connOut finished_state = Some Upstream"
    by (simp_all add: finished_state_def terminated_def)
  have n: "trace finished_state \<noteq> [Eof Local]"
    by (simp add: finished_state_def)
  have c: "\<not> panicked relay_state" "2 < length (goroutines relay_state)"
    "goroutines relay_state ! 2 = Copy_Read (Some Local) (Some Upstream) (Some Local)"
    by (simp_all add: relay_state_def)
  have b: "\<not> panicked backed_up_state" "2 < length (goroutines backed_up_state)"
    "goroutines backed_up_state ! 2
       = Copy_Write (Some Local) (Some Upstream) (Some Local) ''abc''"
    "is_closed (trace backed_up_state) Upstream"
    by (simp_all add: backed_up_state_def is_closed_def)
  note t1 = finished_tunnel_closed[of plain "''origin.example:443''" finished_schedule
      finished_state relay_state 2 Local Upstream EOF]
  note t2 = finished_tunnel_closed[of plain "''origin.example:443''" finished_schedule
      finished_state backed_up_state 2 Local Upstream _ "''abc''" True]
  from t1 r h n have p1: "is_closed (trace finished_state) Local
      \<and> is_closed (trace finished_state) Upstream"
    by simp
  from t1 c have p2: "run plain ''origin.example:443'' [(2, Chunk (Inl EOF)), (2, Tick)] relay_state =
       Some (relay_state\<lparr>goroutines := (goroutines relay_state)[2 := Finished],
               trace := trace relay_state @ [Eof Local, Close Local]\<rparr>)"
    by simp
  from t2 b have p3: "run plain ''origin.example:443'' [(2, Written True), (2, Tick)] backed_up_state =
       Some (backed_up_state\<lparr>goroutines := (goroutines backed_up_state)[2 := Finished],
               trace := trace backed_up_state
                  @ [Write By_io_Copy Upstream ''abc'' False, Close Local]\<rparr>)"
    by simp
  from r h n c b p1 p2 p3 show ?thesis by simp
qed

end
